theory Spec2Isabelle
  imports Complex_Main
begin

section \<open>Strings\<close>

text \<open>
  Column names are Python strings; they are modelled as \<open>string\<close> (a list of bytes).
  \<open>str.lower\<close> is modelled on the ASCII letters, every other byte is left as it is.
\<close>

definition lower_char :: "char \<Rightarrow> char" where
  "lower_char c =
     (case map_of (zip ''ABCDEFGHIJKLMNOPQRSTUVWXYZ'' ''abcdefghijklmnopqrstuvwxyz'') c of
        Some l \<Rightarrow> l
      | None \<Rightarrow> c)"

definition lower :: "string \<Rightarrow> string" where
  "lower s = map lower_char s"

fun startswith :: "string \<Rightarrow> string \<Rightarrow> bool" where
  "startswith s [] = True"
| "startswith [] (p # ps) = False"
| "startswith (c # cs) (p # ps) = (c = p \<and> startswith cs ps)"

definition endswith :: "string \<Rightarrow> string \<Rightarrow> bool" where
  "endswith s suf = startswith (rev s) (rev suf)"

text \<open>\<open>tok in name\<close> on strings: \<open>tok\<close> occurs in \<open>name\<close> as a contiguous substring.\<close>

fun contains :: "string \<Rightarrow> string \<Rightarrow> bool" where
  "contains [] tok = (tok = [])"
| "contains (c # cs) tok = (startswith (c # cs) tok \<or> contains cs tok)"

text \<open>\<open>any(tok in name for tok in toks)\<close>\<close>

definition any_tok :: "string list \<Rightarrow> string \<Rightarrow> bool" where
  "any_tok toks name = list_ex (contains name) toks"

section \<open>Tables\<close>

text \<open>
  A cell of a data frame is either null (\<open>None\<close>: NaN, None, NaT) or a value. Numbers of
  integer and floating columns are compared by Python with numeric equality
  (\<open>1 == 1.0\<close>), so both are \<open>Num\<close>; text is \<open>Str\<close>; a timestamp is \<open>Time\<close>, in
  nanoseconds since the epoch.
\<close>

datatype val = Num rat | Str string | Time int

type_synonym cell = "val option"

datatype dtype = Int64 | Float64 | Bool | Object | Datetime64

record column =
  cname :: string
  cdtype :: dtype
  cvals :: "cell list"

text \<open>
  A data frame: its row count (\<open>len(df)\<close>), its row labels (\<open>df.index\<close>, one per
  row) and its columns in order. The frames of this program come from \<open>read_csv\<close> and
  \<open>read_excel\<close>, which make column labels unique and give every column one cell per
  row; \<open>wf_table\<close> states that. With unique labels
  \<open>for col in df.columns: ... df[col] ...\<close> visits each column once, so such loops are
  modelled as loops over the columns themselves.

  The row labels are \<open>0 .. n - 1\<close> (\<open>range_index\<close>) unless the file has one more
  field per row than its header has names: then \<open>read_csv\<close> takes the first field of
  every row as its label, and labels may repeat.
\<close>

record table =
  nrows :: nat
  index :: "cell list"
  cols :: "column list"

definition wf_table :: "table \<Rightarrow> bool" where
  "wf_table df =
     (distinct (map cname (cols df)) \<and> list_all (\<lambda>c. length (cvals c) = nrows df) (cols df) \<and>
      length (index df) = nrows df)"

definition range_index :: "nat \<Rightarrow> cell list" where
  "range_index n = map (\<lambda>i. Some (Num (of_nat i))) [0..<n]"

definition df_columns :: "table \<Rightarrow> string list" where
  "df_columns df = map cname (cols df)"

text \<open>\<open>df[name]\<close> for a label that may be absent: \<open>None\<close> when \<open>name not in df.columns\<close>.\<close>

definition getitem :: "table \<Rightarrow> string \<Rightarrow> column option" where
  "getitem df name = find (\<lambda>c. cname c = name) (cols df)"

subsection \<open>Series operations\<close>

text \<open>\<open>s.dropna()\<close>: the non-null values, in order.\<close>

fun dropna :: "'a option list \<Rightarrow> 'a list" where
  "dropna [] = []"
| "dropna (None # cs) = dropna cs"
| "dropna (Some v # cs) = v # dropna cs"

text \<open>\<open>s.unique()\<close>: the distinct elements in order of first appearance.\<close>

definition unique :: "'a list \<Rightarrow> 'a list" where
  "unique xs = rev (remdups (rev xs))"

text \<open>\<open>s.nunique()\<close> counts the distinct non-null values.\<close>

definition nunique :: "cell list \<Rightarrow> nat" where
  "nunique cs = length (unique (dropna cs))"

text \<open>\<open>s.is_unique\<close>: no two cells are equal, where null counts as a value like any other.\<close>

definition is_unique :: "cell list \<Rightarrow> bool" where
  "is_unique cs = distinct cs"

definition isnull_any :: "cell list \<Rightarrow> bool" where
  "isnull_any cs = list_ex (\<lambda>c. c = None) cs"

definition isnull_all :: "cell list \<Rightarrow> bool" where
  "isnull_all cs = list_all (\<lambda>c. c = None) cs"

definition isnull_sum :: "cell list \<Rightarrow> nat" where
  "isnull_sum cs = length (filter (\<lambda>c. c = None) cs)"

section \<open>Key detection\<close>

definition is_pk :: "column \<Rightarrow> bool" where
  "is_pk c = (is_unique (cvals c) \<and> \<not> isnull_any (cvals c))"

definition pk_cols :: "table \<Rightarrow> column list" where
  "pk_cols df = filter is_pk (cols df)"

definition find_primary_keys :: "table \<Rightarrow> string list" where
  "find_primary_keys df = map cname (pk_cols df)"

definition find_foreign_keys :: "table \<Rightarrow> string list" where
  "find_foreign_keys df = filter (\<lambda>c. endswith c ''_id'') (df_columns df)"

definition detect_dead_column :: "cell list \<Rightarrow> bool" where
  "detect_dead_column series = (isnull_all series \<or> nunique series \<le> 1)"

section \<open>Column categories\<close>

definition dtype_str :: "dtype \<Rightarrow> string" where
  "dtype_str d =
     (case d of Int64 \<Rightarrow> ''int64'' | Float64 \<Rightarrow> ''float64'' | Bool \<Rightarrow> ''bool''
      | Object \<Rightarrow> ''object'' | Datetime64 \<Rightarrow> ''datetime64[ns]'')"

definition dtype_kind :: "dtype \<Rightarrow> char" where
  "dtype_kind d =
     (case d of Int64 \<Rightarrow> CHR ''i'' | Float64 \<Rightarrow> CHR ''f'' | Bool \<Rightarrow> CHR ''b''
      | Object \<Rightarrow> CHR ''O'' | Datetime64 \<Rightarrow> CHR ''M'')"

text \<open>
  \<open>categorize_boolean(series, sample_name)\<close>. In \<open>bool_like\<close> Python's \<open>True\<close> and
  \<open>False\<close> are the numbers 1 and 0.
\<close>

definition bool_like :: "val list" where
  "bool_like = [Num 0, Num 1, Str ''0'', Str ''1'', Str ''true'', Str ''false'',
                Str ''True'', Str ''False'']"

definition categorize_boolean :: "cell list option \<Rightarrow> string \<Rightarrow> bool" where
  "categorize_boolean series sample_name =
     (if sample_name \<noteq> [] \<and>
         (let name = lower sample_name
          in startswith name ''is_'' \<or> endswith name ''_flag'' \<or>
             name \<in> set [''ativo'', ''active'', ''valid''])
      then True
      else (case series of
              None \<Rightarrow> False
            | Some cs \<Rightarrow> list_all (\<lambda>v. v \<in> set bool_like) (unique (dropna cs))))"

definition temporal_tokens :: "string list" where
  "temporal_tokens =
     [''date'', ''data'', ''time'', ''inicio'', ''inicio_'', ''fim'', ''end'', ''updated'',
      ''created'']"

definition monetary_tokens :: "string list" where
  "monetary_tokens = [''valor'', ''value'', ''amount'', ''preco'', ''price'', ''_total'']"

definition categorize_column :: "string \<Rightarrow> dtype \<Rightarrow> string" where
  "categorize_column col_name dt =
     (let name = lower col_name; str_dtype = dtype_str dt in
      if endswith name ''_id'' then ''relacional''
      else if endswith name ''_at'' \<or> any_tok temporal_tokens name then ''temporal''
      else if name \<in> set [''ativo'', ''active''] \<or> categorize_boolean None name
        then ''boolean''
      else if any_tok monetary_tokens name then ''monetaria''
      else if contains name ''status'' \<or> contains name ''validation'' \<or> contains name ''check''
        then ''status''
      else if startswith str_dtype ''int'' \<or> startswith str_dtype ''float'' then ''numerica''
      else ''categorica'')"

section \<open>Business fields\<close>

text \<open>
  Ratios are Python floats obtained by dividing two integers; they are modelled as exact
  rationals, and so are the thresholds. \<open>str_of\<close> stands for Python's \<open>str\<close> on a
  cell value.
\<close>

record candidate =
  unique_pct :: rat
  null_pct :: rat
  sample :: "string list"

definition business_field ::
  "(val \<Rightarrow> string) \<Rightarrow> nat \<Rightarrow> rat \<Rightarrow> rat \<Rightarrow> column \<Rightarrow> (string \<times> candidate) list" where
  "business_field str_of n threshold_unique threshold_null col =
     (let nunique_ratio = (if n \<noteq> 0 then of_nat (nunique (cvals col)) / of_nat n else 0);
          null_ratio = (if n \<noteq> 0 then of_nat (isnull_sum (cvals col)) / of_nat n else 0)
      in if nunique_ratio < threshold_unique \<and> null_ratio < threshold_null
         then [(cname col,
                \<lparr>unique_pct = nunique_ratio, null_pct = null_ratio,
                 sample = take 5 (unique (map str_of (dropna (cvals col))))\<rparr>)]
         else [])"

text \<open>The returned dict, as the list of its items in insertion order.\<close>

definition find_business_fields ::
  "(val \<Rightarrow> string) \<Rightarrow> table \<Rightarrow> rat \<Rightarrow> rat \<Rightarrow> (string \<times> candidate) list" where
  "find_business_fields str_of df threshold_unique threshold_null =
     concat (map (business_field str_of (nrows df) threshold_unique threshold_null) (cols df))"

section \<open>Dimension candidates\<close>

definition detect_dimension_candidates :: "table \<Rightarrow> rat \<Rightarrow> string list" where
  "detect_dimension_candidates df max_cardinality_pct =
     (let n = nrows df in
      if n = 0 then []
      else map cname
        (filter
          (\<lambda>col. let card = (if n \<noteq> 0 then of_nat (nunique (cvals col)) / of_nat n else 1)
                 in 0 < card \<and> card \<le> max_cardinality_pct \<and> \<not> endswith (cname col) ''_id'')
          (cols df)))"

section \<open>Implicit foreign keys\<close>

text \<open>
  \<open>round(x, ndigits)\<close> on the exact value: to the nearest multiple of \<open>10^-ndigits\<close>,
  a tie going to the even one.
\<close>

definition py_round :: "rat \<Rightarrow> nat \<Rightarrow> rat" where
  "py_round x ndigits =
     (let s = x * 10 ^ ndigits; f = \<lfloor>s\<rfloor>; d = s - of_int f;
          r = (if d < 1 / 2 then f else if 1 / 2 < d then f + 1
               else if even f then f else f + 1)
      in of_int r / 10 ^ ndigits)"

record relationship =
  from_table :: string
  fk :: string
  to_table :: string
  pk :: string

record implicit_relationship = relationship +
  confidence :: rat

text \<open>
  The search state is \<open>(best_match, best_ratio)\<close>. One step looks at one primary-key
  candidate \<open>pkc\<close> of table \<open>tbl_to\<close>; value sets are lists without repetition.
\<close>

definition consider_pk ::
  "val list \<Rightarrow> string \<Rightarrow> column \<Rightarrow> (string \<times> string) option \<times> rat \<Rightarrow>
   (string \<times> string) option \<times> rat" where
  "consider_pk fk_values tbl_to pkc st =
     (let pk_values = unique (dropna (cvals pkc)) in
      if length pk_values = 0 then st
      else
        let overlap = filter (\<lambda>v. v \<in> set pk_values) fk_values;
            ratio = of_nat (length overlap) / of_nat (min (length fk_values) (length pk_values))
        in if snd st < ratio then (Some (tbl_to, cname pkc), ratio) else st)"

text \<open>
  \<open>tables_dfs\<close> is a dict from table name to frame, here the list of its items;
  \<open>pk_lookup[tbl_to]\<close> is \<open>find_primary_keys(df_to)\<close>.
\<close>

definition best_candidate ::
  "(string \<times> table) list \<Rightarrow> string \<Rightarrow> val list \<Rightarrow> (string \<times> string) option \<times> rat" where
  "best_candidate tables_dfs tbl_from fk_values =
     foldl (\<lambda>st (tbl_to, df_to).
              if tbl_from = tbl_to then st
              else foldl (\<lambda>st' pkc. consider_pk fk_values tbl_to pkc st') st (pk_cols df_to))
           (None, 0) tables_dfs"

text \<open>
  The state of the search: the best ratio is in \<open>[0, 1]\<close>, and it is positive once a
  match has been recorded.
\<close>

definition search_inv :: "(string \<times> string) option \<times> rat \<Rightarrow> bool" where
  "search_inv st = (0 \<le> snd st \<and> snd st \<le> 1 \<and> (fst st = None \<or> 0 < snd st))"

definition suggest_fk ::
  "(string \<times> table) list \<Rightarrow> relationship list \<Rightarrow> rat \<Rightarrow> string \<Rightarrow> column \<Rightarrow>
   implicit_relationship list" where
  "suggest_fk tables_dfs existing_rels min_overlap_ratio tbl_from col =
     (if list_ex (\<lambda>rel. from_table rel = tbl_from \<and> fk rel = cname col) existing_rels then []
      else
        let fk_values = unique (dropna (cvals col)) in
        if length fk_values = 0 then []
        else (case best_candidate tables_dfs tbl_from fk_values of
                (None, best_ratio) \<Rightarrow> []
              | (Some best_match, best_ratio) \<Rightarrow>
                  if min_overlap_ratio \<le> best_ratio
                  then [\<lparr>from_table = tbl_from, fk = cname col, to_table = fst best_match,
                         pk = snd best_match, confidence = py_round best_ratio 2\<rparr>]
                  else []))"

definition infer_implicit_fks ::
  "(string \<times> table) list \<Rightarrow> relationship list \<Rightarrow> rat \<Rightarrow> implicit_relationship list" where
  "infer_implicit_fks tables_dfs existing_rels min_overlap_ratio =
     concat (map (\<lambda>(tbl_from, df_from).
                    concat (map (suggest_fk tables_dfs existing_rels min_overlap_ratio tbl_from)
                                (filter (\<lambda>c. endswith (cname c) ''_id'') (cols df_from))))
                 tables_dfs)"

section \<open>Multivariate rules\<close>

record rule =
  condition :: string
  requirement :: string
  violation_pct :: rat

text \<open>
  The body of the loop over \<open>subset[cond].unique()\<close>: \<open>subset_df\<close> holds the pairs
  (condition cell, target cell) of the rows whose condition cell is not null.
\<close>

definition value_rule ::
  "(val \<Rightarrow> string) \<Rightarrow> rat \<Rightarrow> string \<Rightarrow> string \<Rightarrow> (val \<times> cell) list \<Rightarrow> val \<Rightarrow> rule list" where
  "value_rule str_of max_violation cond target subset_df v =
     (let cond_rows = filter (\<lambda>(c, t). c = v) subset_df in
      if cond_rows = [] then []
      else
        let null_pct = of_nat (length (filter (\<lambda>(c, t). t = None) cond_rows))
                       / of_nat (length cond_rows)
        in if null_pct \<le> max_violation
           then [\<lparr>condition = cond @ '' = '' @ str_of v, requirement = target @ '' != null'',
                  violation_pct = py_round null_pct 3\<rparr>]
           else [])"

text \<open>The body of the loop over the target columns, for one condition column.\<close>

definition pair_rules :: "(val \<Rightarrow> string) \<Rightarrow> rat \<Rightarrow> column \<Rightarrow> column \<Rightarrow> rule list" where
  "pair_rules str_of max_violation cond target =
     (let subset_df = concat (map (\<lambda>(c, t). case c of None \<Rightarrow> [] | Some v \<Rightarrow> [(v, t)])
                               (zip (cvals cond) (cvals target)))
      in if subset_df = [] then []
         else concat (map (value_rule str_of max_violation (cname cond) (cname target) subset_df)
                          (unique (map fst subset_df))))"

definition detect_multivariate_rules ::
  "(val \<Rightarrow> string) \<Rightarrow> table \<Rightarrow> int \<Rightarrow> rat \<Rightarrow> rule list" where
  "detect_multivariate_rules str_of df max_cardinality max_violation =
     (let n = nrows df in
      if n = 0 then []
      else
        let cond_cols = filter (\<lambda>c. int (nunique (cvals c)) \<le> max_cardinality) (cols df);
            target_cols = filter (\<lambda>c. cname c \<notin> set (map cname cond_cols)) (cols df)
        in concat (map (\<lambda>cond. concat (map (pair_rules str_of max_violation cond) target_cols))
                       cond_cols))"

section \<open>Derived fields\<close>

record derived_field =
  field :: string
  derived_from :: string
  corr :: rat

text \<open>\<open>(df[b] - df[a]).dt.days\<close> in one row: the whole days between two timestamps.\<close>

definition day_diff :: "cell \<Rightarrow> cell \<Rightarrow> int option" where
  "day_diff ca cb =
     (case (ca, cb) of
        (Some (Time ta), Some (Time tb)) \<Rightarrow> Some ((tb - ta) div 86400000000000)
      | _ \<Rightarrow> None)"

text \<open>
  \<open>pd.concat([y, diff], axis=1).dropna()\<close>: the rows where both the numeric cell and
  the day difference are present. pandas pairs the two series by row label; the model
  pairs them by position, which is the same when the labels are pairwise different.
\<close>

definition aligned :: "column \<Rightarrow> column \<Rightarrow> column \<Rightarrow> (val \<times> int) list" where
  "aligned num a b =
     concat (map (\<lambda>(y, ca, cb). case (y, day_diff ca cb) of
                                  (Some v, Some d) \<Rightarrow> [(v, d)]
                                | _ \<Rightarrow> [])
                 (zip (cvals num) (zip (cvals a) (cvals b))))"

text \<open>The pairs \<open>(xs[i], xs[j])\<close> with \<open>i < j\<close>, in the order of the two nested loops.\<close>

fun pairs :: "'a list \<Rightarrow> ('a \<times> 'a) list" where
  "pairs [] = []"
| "pairs (x # xs) = map (Pair x) xs @ pairs xs"

text \<open>
  The body of the inner loops. \<open>pearson\<close> stands for the correlation that pandas
  computes on the aligned sample; \<open>None\<close> is NaN.
\<close>

definition pair_suggestion ::
  "((val \<times> int) list \<Rightarrow> rat option) \<Rightarrow> rat \<Rightarrow> column \<Rightarrow> column \<Rightarrow> column \<Rightarrow>
   derived_field list" where
  "pair_suggestion pearson corr_threshold num a b =
     (if cdtype a \<noteq> Datetime64 \<or> cdtype b \<noteq> Datetime64 then []
      else
        let al = aligned num a b in
        if length al < 10 then []
        else (case pearson al of
                None \<Rightarrow> []
              | Some c \<Rightarrow>
                  if corr_threshold \<le> \<bar>c\<bar>
                  then [\<lparr>field = cname num, derived_from = cname b @ '' - '' @ cname a,
                         corr = py_round c 2\<rparr>]
                  else []))"

definition detect_derived_fields ::
  "((val \<times> int) list \<Rightarrow> rat option) \<Rightarrow> table \<Rightarrow> rat \<Rightarrow> derived_field list" where
  "detect_derived_fields pearson df corr_threshold =
     (let date_cols = filter (\<lambda>c. categorize_column (cname c) (cdtype c) = ''temporal'') (cols df);
          numeric_cols = filter (\<lambda>c. dtype_kind (cdtype c) \<in> set ''if'') (cols df)
      in if length date_cols < 2 then []
         else concat (map (\<lambda>num.
                if isnull_all (cvals num) then []
                else concat (map (\<lambda>(a, b). pair_suggestion pearson corr_threshold num a b)
                                 (pairs date_cols)))
              numeric_cols))"

section \<open>Workflow detection\<close>

datatype py_error = TypeError | ValueError

record workflow =
  status_col :: string
  states :: "val list"
  transitions :: "(val \<times> val) list"

text \<open>
  Python orders numbers with numbers, strings with strings (by code point) and
  timestamps with timestamps; comparing values of two different kinds raises
  \<open>TypeError\<close>.
\<close>

fun str_less :: "string \<Rightarrow> string \<Rightarrow> bool" where
  "str_less [] [] = False"
| "str_less [] (d # ds) = True"
| "str_less (c # cs) [] = False"
| "str_less (c # cs) (d # ds) =
     ((of_char c :: nat) < of_char d \<or> (c = d \<and> str_less cs ds))"

fun val_less :: "val \<Rightarrow> val \<Rightarrow> bool" where
  "val_less (Num a) (Num b) = (a < b)"
| "val_less (Str a) (Str b) = str_less a b"
| "val_less (Time a) (Time b) = (a < b)"
| "val_less _ _ = False"

fun same_kind :: "val \<Rightarrow> val \<Rightarrow> bool" where
  "same_kind (Num a) (Num b) = True"
| "same_kind (Str a) (Str b) = True"
| "same_kind (Time a) (Time b) = True"
| "same_kind _ _ = False"

fun insort_by :: "('a \<Rightarrow> val) \<Rightarrow> 'a \<Rightarrow> 'a list \<Rightarrow> 'a list" where
  "insort_by key x [] = [x]"
| "insort_by key x (y # ys) =
     (if val_less (key y) (key x) then y # insort_by key x ys else x # y # ys)"

text \<open>
  Sorting by a key (\<open>sorted\<close>, \<open>sort_values\<close>): \<open>TypeError\<close> when the keys are not
  all of one kind, otherwise the elements in ascending order of their keys. Elements
  with equal keys keep their original order here; \<open>sort_values\<close> with its default
  algorithm leaves the order of such rows open.
\<close>

definition sort_by :: "('a \<Rightarrow> val) \<Rightarrow> 'a list \<Rightarrow> py_error + 'a list" where
  "sort_by key xs =
     (case xs of
        [] \<Rightarrow> Inr []
      | x # rest \<Rightarrow>
          if list_all (\<lambda>y. same_kind (key x) (key y)) rest
          then Inr (foldr (insort_by key) xs [])
          else Inl TypeError)"

text \<open>
  \<open>frame.groupby(keys)\<close> for an array of keys, one per row of the frame:
  \<open>ValueError\<close> ("Grouper and axis must be same length") when the array and the
  frame differ in length; otherwise one group per distinct non-null key, each holding
  its rows in the order of the frame.
\<close>

definition groupby :: "'k option list \<Rightarrow> 'r list \<Rightarrow> py_error + 'r list list" where
  "groupby keys rows =
     (if length keys \<noteq> length rows then Inl ValueError
      else Inr (map (\<lambda>k. map snd (filter (\<lambda>(k', r). k' = Some k) (zip keys rows)))
                    (unique (dropna keys))))"

text \<open>The walk over the statuses of one group; \<open>prev\<close> starts as \<open>None\<close>.\<close>

fun walk :: "val option \<Rightarrow> val list \<Rightarrow> (val \<times> val) list" where
  "walk prev [] = []"
| "walk prev (st # rest) =
     (case prev of
        None \<Rightarrow> walk (Some st) rest
      | Some p \<Rightarrow> (if p \<noteq> st then [(p, st)] else []) @ walk (Some st) rest)"

text \<open>
  \<open>df.dropna(subset=[status_col, timestamp_col]).sort_values(timestamp_col)\<close>: the
  rows as (status, timestamp) pairs, each carrying an extra component \<open>x\<close> (its
  \<open>invoice_id\<close> cell, or its row label).
\<close>

definition df_sorted ::
  "column \<Rightarrow> column \<Rightarrow> 'x list \<Rightarrow> py_error + ((val \<times> val) \<times> 'x) list" where
  "df_sorted sc tc extra =
     sort_by (\<lambda>r. snd (fst r))
       (concat (map (\<lambda>((s, t), x). case (s, t) of
                                     (Some sv, Some tv) \<Rightarrow> [((sv, tv), x)]
                                   | _ \<Rightarrow> [])
                    (zip (zip (cvals sc) (cvals tc)) extra)))"

text \<open>
  The groups of \<open>df_sorted.groupby('invoice_id' if 'invoice_id' in df.columns else
  df.index)\<close>, each as its list of statuses. \<open>df.index\<close> is the index of the frame
  before any row was dropped or moved; its labels are paired with the rows of
  \<open>df_sorted\<close> by position.
\<close>

definition grouped :: "table \<Rightarrow> column \<Rightarrow> column \<Rightarrow> py_error + val list list" where
  "grouped df sc tc =
     (case getitem df ''invoice_id'' of
        Some ic \<Rightarrow>
          (case df_sorted sc tc (cvals ic) of
             Inl e \<Rightarrow> Inl e
           | Inr rs \<Rightarrow> groupby (map snd rs) (map (\<lambda>r. fst (fst r)) rs))
      | None \<Rightarrow>
          (case df_sorted sc tc (index df) of
             Inl e \<Rightarrow> Inl e
           | Inr rs \<Rightarrow> groupby (index df) (map (\<lambda>r. fst (fst r)) rs)))"

text \<open>The first candidate that is a column with more than one distinct value.\<close>

fun pick_status :: "table \<Rightarrow> string list \<Rightarrow> column option" where
  "pick_status df [] = None"
| "pick_status df (c # cs) =
     (case getitem df c of
        None \<Rightarrow> pick_status df cs
      | Some col \<Rightarrow> if 1 < nunique (cvals col) then Some col else pick_status df cs)"

text \<open>
  The candidate names: by default the columns whose lower-cased name contains
  \<open>status\<close> or \<open>state\<close>.
\<close>

definition status_candidates :: "table \<Rightarrow> string list option \<Rightarrow> string list" where
  "status_candidates df status_col_candidates =
     (case status_col_candidates of
        None \<Rightarrow> filter (\<lambda>c. contains (lower c) ''status'' \<or> contains (lower c) ''state'')
                       (df_columns df)
      | Some cs \<Rightarrow> cs)"

text \<open>
  The timestamp column that is used: none when the name is not a column, when the
  column is all null, or when the name is the empty string (\<open>if timestamp_col:\<close>).
\<close>

definition timestamp_column :: "table \<Rightarrow> string \<Rightarrow> column option" where
  "timestamp_column df timestamp_col =
     (case getitem df timestamp_col of
        None \<Rightarrow> None
      | Some tc \<Rightarrow> (if isnull_all (cvals tc) \<or> timestamp_col = [] then None else Some tc))"

text \<open>
  The result is \<open>Inr None\<close> for the empty dict \<open>{}\<close>. The set of transitions is
  returned as a list without repetition; its order is not specified by Python.
\<close>

definition detect_workflow ::
  "table \<Rightarrow> string list option \<Rightarrow> string \<Rightarrow> py_error + workflow option" where
  "detect_workflow df status_col_candidates timestamp_col =
     (case pick_status df (status_candidates df status_col_candidates) of
        None \<Rightarrow> Inr None
      | Some sc \<Rightarrow>
          (case sort_by (\<lambda>v. v) (unique (dropna (cvals sc))) of
             Inl e \<Rightarrow> Inl e
           | Inr sts \<Rightarrow>
               (case timestamp_column df timestamp_col of
                  None \<Rightarrow> Inr (Some \<lparr>status_col = cname sc, states = sts, transitions = []\<rparr>)
                | Some tc \<Rightarrow>
                    (case grouped df sc tc of
                       Inl e \<Rightarrow> Inl e
                     | Inr groups \<Rightarrow>
                         Inr (Some \<lparr>status_col = cname sc, states = sts,
                                    transitions = unique (concat (map (walk None) groups))\<rparr>)))))"

section \<open>Example tables\<close>

text \<open>A file with a header line and no data rows.\<close>

definition header_only :: table where
  "header_only =
     \<lparr>nrows = 0, index = range_index 0,
      cols = [\<lparr>cname = ''id'', cdtype = Object, cvals = []\<rparr>,
              \<lparr>cname = ''name'', cdtype = Object, cvals = []\<rparr>]\<rparr>"

definition single_row :: table where
  "single_row =
     \<lparr>nrows = 1, index = range_index 1, cols = [\<lparr>cname = ''id'', cdtype = Int64, cvals = [Some (Num 5)]\<rparr>]\<rparr>"

definition two_rows :: table where
  "two_rows =
     \<lparr>nrows = 2, index = range_index 2,
      cols = [\<lparr>cname = ''id'', cdtype = Int64, cvals = [Some (Num 1), Some (Num 2)]\<rparr>,
              \<lparr>cname = ''note'', cdtype = Float64, cvals = [None, None]\<rparr>]\<rparr>"


text \<open>The two tables of the overlap example: \<open>A.order_id\<close> and the key \<open>B.id\<close>.\<close>

definition order_tables :: "(string \<times> table) list" where
  "order_tables =
     [(''A'',
       \<lparr>nrows = 3, index = range_index 3,
        cols = [\<lparr>cname = ''order_id'', cdtype = Int64,
                 cvals = [Some (Num 1), Some (Num 2), Some (Num 3)]\<rparr>]\<rparr>),
      (''B'',
       \<lparr>nrows = 4, index = range_index 4,
        cols = [\<lparr>cname = ''id'', cdtype = Int64,
                 cvals = [Some (Num 1), Some (Num 2), Some (Num 3), Some (Num 4)]\<rparr>]\<rparr>)]"

text \<open>
  Two tables whose columns hold consecutive integers and share exactly one value:
  \<open>orders.customer_id\<close> is \<open>lo, \<dots>, m\<close> and \<open>customers.code\<close> is
  \<open>m, \<dots>, hi - 1\<close>.
\<close>

definition num_cells :: "nat \<Rightarrow> nat \<Rightarrow> cell list" where
  "num_cells lo hi = map (\<lambda>i. Some (Num (of_nat i))) [lo..<hi]"

definition sparse_tables :: "nat \<Rightarrow> nat \<Rightarrow> nat \<Rightarrow> (string \<times> table) list" where
  "sparse_tables lo m hi =
     [(''orders'',
       \<lparr>nrows = Suc m - lo, index = range_index (Suc m - lo),
        cols = [\<lparr>cname = ''customer_id'', cdtype = Int64, cvals = num_cells lo (Suc m)\<rparr>]\<rparr>),
      (''customers'',
       \<lparr>nrows = hi - m, index = range_index (hi - m),
        cols = [\<lparr>cname = ''code'', cdtype = Int64, cvals = num_cells m hi\<rparr>]\<rparr>)]"

text \<open>
  Thirteen rows: eleven of type A, each with an e-mail address of its own, and two of
  type B, one of them without an address.
\<close>

definition contacts :: table where
  "contacts =
     \<lparr>nrows = 13, index = range_index 13,
      cols = [\<lparr>cname = ''type'', cdtype = Object,
               cvals = replicate 11 (Some (Str ''A'')) @ replicate 2 (Some (Str ''B''))\<rparr>,
              \<lparr>cname = ''email'', cdtype = Object,
               cvals = [Some (Str ''a@x''), Some (Str ''b@x''), Some (Str ''c@x''),
                        Some (Str ''d@x''), Some (Str ''e@x''), Some (Str ''f@x''),
                        Some (Str ''g@x''), Some (Str ''h@x''), Some (Str ''i@x''),
                        Some (Str ''j@x''), Some (Str ''k@x''), Some (Str ''l@x''), None]\<rparr>]\<rparr>"

text \<open>Python's \<open>str\<close> on the text values of the examples.\<close>

fun str_text :: "val \<Rightarrow> string" where
  "str_text (Str s) = s"
| "str_text v = ''?''"




text \<open>
  Two deliveries of the same parcel in a table with the default row labels and no
  \<open>invoice_id\<close> column.
\<close>

definition delivery_log :: table where
  "delivery_log =
     \<lparr>nrows = 2, index = range_index 2,
      cols = [\<lparr>cname = ''parcel_id'', cdtype = Int64, cvals = [Some (Num 3), Some (Num 3)]\<rparr>,
              \<lparr>cname = ''status'', cdtype = Object,
               cvals = [Some (Str ''open''), Some (Str ''closed'')]\<rparr>,
              \<lparr>cname = ''updated_at'', cdtype = Object,
               cvals = [Some (Str ''2024-01-01''), Some (Str ''2024-01-02'')]\<rparr>]\<rparr>"

text \<open>
  The frame that \<open>read_csv\<close> builds from a file with the header
  \<open>status,updated_at\<close> and the rows \<open>7,open,2024-01-01\<close> and
  \<open>7,closed,2024-01-02\<close>: the first field of each row becomes its label.
\<close>

definition labelled_log :: table where
  "labelled_log =
     \<lparr>nrows = 2, index = [Some (Num 7), Some (Num 7)],
      cols = [\<lparr>cname = ''status'', cdtype = Object,
               cvals = [Some (Str ''open''), Some (Str ''closed'')]\<rparr>,
              \<lparr>cname = ''updated_at'', cdtype = Object,
               cvals = [Some (Str ''2024-01-01''), Some (Str ''2024-01-02'')]\<rparr>]\<rparr>"

text \<open>Three rows without an \<open>invoice_id\<close> column; the second has no timestamp.\<close>

definition ticket_log :: table where
  "ticket_log =
     \<lparr>nrows = 3, index = range_index 3,
      cols = [\<lparr>cname = ''status'', cdtype = Object,
               cvals = [Some (Str ''open''), Some (Str ''closed''), Some (Str ''open'')]\<rparr>,
              \<lparr>cname = ''updated_at'', cdtype = Object,
               cvals = [Some (Str ''2024-01-01''), None, Some (Str ''2024-01-03'')]\<rparr>]\<rparr>"

text \<open>
  A table of \<open>n\<close> shipments: row \<open>i\<close> was created at the epoch, is due \<open>i\<close> days
  later and has \<open>lead_days = i\<close>.
\<close>

definition shipments :: "nat \<Rightarrow> table" where
  "shipments n =
     \<lparr>nrows = n, index = range_index n,
      cols = [\<lparr>cname = ''lead_days'', cdtype = Int64,
               cvals = map (\<lambda>i. Some (Num (of_nat i))) [0..<n]\<rparr>,
              \<lparr>cname = ''created_at'', cdtype = Datetime64,
               cvals = map (\<lambda>i. Some (Time 0)) [0..<n]\<rparr>,
              \<lparr>cname = ''due_date'', cdtype = Datetime64,
               cvals = map (\<lambda>i. Some (Time (int i * 86400000000000))) [0..<n]\<rparr>]\<rparr>"

section \<open>Basic facts\<close>

lemma length_range_index [simp]: "length (range_index n) = n"
  by (simp add: range_index_def)

lemma set_unique [simp]: "set (unique xs) = set xs"
  by (simp add: unique_def)

lemma distinct_unique [simp]: "distinct (unique xs)"
  by (simp add: unique_def)

lemma length_unique: "length (unique xs) = card (set xs)"
  by (simp add: unique_def length_remdups_card_conv)

lemma unique_Nil [simp]: "unique [] = []"
  by (simp add: unique_def)

lemma set_dropna [simp]: "set (dropna cs) = {v. Some v \<in> set cs}"
  by (induction cs rule: dropna.induct) auto

lemma dropna_no_null: "None \<notin> set cs \<Longrightarrow> map Some (dropna cs) = cs"
  by (induction cs rule: dropna.induct) auto

lemma nunique_key:
  assumes "distinct cs" "None \<notin> set cs"
  shows "nunique cs = length cs"
proof -
  have m: "map Some (dropna cs) = cs" using assms(2) by (rule dropna_no_null)
  then have "distinct (map Some (dropna cs))" using assms(1) by simp
  then have "distinct (dropna cs)" by (simp add: distinct_map)
  then have "card (set (dropna cs)) = length (dropna cs)" by (rule distinct_card)
  moreover have "length (dropna cs) = length cs" using m by (metis length_map)
  ultimately show ?thesis by (simp add: nunique_def length_unique)
qed

lemma wf_table_length: "wf_table df \<Longrightarrow> c \<in> set (cols df) \<Longrightarrow> length (cvals c) = nrows df"
  by (simp add: wf_table_def list_all_iff)

lemma wf_table_name_inj:
  "wf_table df \<Longrightarrow> c \<in> set (cols df) \<Longrightarrow> c' \<in> set (cols df) \<Longrightarrow> cname c = cname c' \<Longrightarrow> c = c'"
  by (simp add: wf_table_def distinct_map inj_on_def)

lemma is_pk_empty: "cvals c = [] \<Longrightarrow> is_pk c"
  by (simp add: is_pk_def is_unique_def isnull_any_def)

section \<open>Key detection on degenerate tables\<close>

text \<open>
  Claim C1, as the code has it: on a table with no rows the uniqueness test and the
  null test of \<open>find_primary_keys\<close> hold for every column, so the function returns
  all the columns the table declares, in order; the result is empty only for a table
  without columns.
\<close>

theorem find_primary_keys_empty_table:
  assumes "wf_table df" and "nrows df = 0"
  shows "find_primary_keys df = df_columns df"
proof -
  have "\<forall>c \<in> set (cols df). is_pk c"
    using assms wf_table_length [of df] is_pk_empty by auto
  then have "filter is_pk (cols df) = cols df" by simp
  then show ?thesis by (simp add: find_primary_keys_def pk_cols_def df_columns_def)
qed

theorem find_primary_keys_empty_table_witness:
  "wf_table header_only \<and> nrows header_only = 0 \<and>
   find_primary_keys header_only = df_columns header_only \<and>
   df_columns header_only = [''id'', ''name'']"
  using find_primary_keys_empty_table [of header_only]
  by (simp add: header_only_def wf_table_def df_columns_def)

text \<open>
  Claim C1 as stated (no primary-key candidates on a table with no rows) fails on a
  table that has a header and no rows: both columns are reported.
\<close>

theorem find_primary_keys_empty_table_counterexample:
  "wf_table header_only \<and> nrows header_only = 0 \<and>
   find_primary_keys header_only = [''id'', ''name'']"
  by (simp add: header_only_def wf_table_def find_primary_keys_def pk_cols_def is_pk_def
      is_unique_def isnull_any_def)

text \<open>
  Claim C2, as the code has it: in a table with at least two rows, a column that
  \<open>detect_dead_column\<close> flags is not among the primary-key candidates.
\<close>

theorem dead_column_not_primary_key:
  assumes wf: "wf_table df" and rows: "2 \<le> nrows df" and c: "c \<in> set (cols df)"
    and dead: "detect_dead_column (cvals c)"
  shows "cname c \<notin> set (find_primary_keys df)"
proof
  assume "cname c \<in> set (find_primary_keys df)"
  then obtain c' where c': "c' \<in> set (cols df)" "is_pk c'" "cname c' = cname c"
    by (auto simp: find_primary_keys_def pk_cols_def)
  then have "c' = c" using wf c wf_table_name_inj by blast
  then have pk: "distinct (cvals c)" "None \<notin> set (cvals c)"
    using c'(2) by (auto simp: is_pk_def is_unique_def isnull_any_def list_ex_iff)
  have len: "length (cvals c) = nrows df" using wf c by (rule wf_table_length)
  have "nunique (cvals c) = nrows df" using nunique_key [OF pk] len by simp
  moreover have "\<not> isnull_all (cvals c)"
  proof
    assume "isnull_all (cvals c)"
    then have "\<forall>x \<in> set (cvals c). x = None" by (simp add: isnull_all_def list_all_iff)
    then have "cvals c = []" using pk(2) by (cases "cvals c") auto
    then show False using len rows by simp
  qed
  ultimately show False using dead rows by (simp add: detect_dead_column_def)
qed

theorem dead_column_not_primary_key_witness:
  "wf_table two_rows \<and> 2 \<le> nrows two_rows \<and>
   \<lparr>cname = ''note'', cdtype = Float64, cvals = [None, None]\<rparr> \<in> set (cols two_rows) \<and>
   detect_dead_column [None, None] \<and>
   ''note'' \<notin> set (find_primary_keys two_rows)"
  using dead_column_not_primary_key
    [of two_rows "\<lparr>cname = ''note'', cdtype = Float64, cvals = [None, None]\<rparr>"]
  by (simp add: two_rows_def wf_table_def detect_dead_column_def isnull_all_def)

text \<open>
  Claim C2 as stated (for every table) fails on a table with one row: its only
  column has a single distinct value, so it is dead, and it is unique and non-null, so
  it is a primary-key candidate.
\<close>

theorem dead_column_primary_key_counterexample:
  "wf_table single_row \<and>
   \<lparr>cname = ''id'', cdtype = Int64, cvals = [Some (Num 5)]\<rparr> \<in> set (cols single_row) \<and>
   detect_dead_column [Some (Num 5)] \<and>
   ''id'' \<in> set (find_primary_keys single_row)"
  by (simp add: single_row_def wf_table_def detect_dead_column_def isnull_all_def nunique_def
      unique_def find_primary_keys_def pk_cols_def is_pk_def is_unique_def isnull_any_def)

lemma empty_table_cvals: "wf_table df \<Longrightarrow> nrows df = 0 \<Longrightarrow> c \<in> set (cols df) \<Longrightarrow> cvals c = []"
  using wf_table_length [of df c] by simp

lemma concat_map_Nil: "(\<And>x. x \<in> set xs \<Longrightarrow> f x = []) \<Longrightarrow> concat (map f xs) = []"
  by (induction xs) auto

lemma concat_map_single: "(\<And>x. x \<in> set xs \<Longrightarrow> f x = [g x]) \<Longrightarrow> concat (map f xs) = map g xs"
  by (induction xs) auto

lemma nunique_Nil [simp]: "nunique [] = 0"
  by (simp add: nunique_def)

section \<open>Column categories\<close>

text \<open>
  Claim C9, as the code has it: the token of the monetary rule is \<open>_total\<close>. A column
  whose lower-cased name contains \<open>_total\<close> and that matches none of the rules of
  higher priority (the suffix \<open>_id\<close>, the temporal rule, the boolean names) is
  categorised as monetary.
\<close>

theorem categorize_column_monetary:
  assumes "contains (lower col_name) ''_total''"
    and "\<not> endswith (lower col_name) ''_id''"
    and "\<not> endswith (lower col_name) ''_at''"
    and "\<not> any_tok temporal_tokens (lower col_name)"
    and "lower col_name \<notin> set [''ativo'', ''active'']"
    and "\<not> categorize_boolean None (lower col_name)"
  shows "categorize_column col_name dt = ''monetaria''"
proof -
  have "any_tok monetary_tokens (lower col_name)"
    using assms(1) by (simp add: any_tok_def monetary_tokens_def)
  then show ?thesis
    using assms(2-6) by (simp add: categorize_column_def)
qed

theorem categorize_column_monetary_witness:
  "contains (lower ''Order_Total'') ''_total'' \<and>
   \<not> endswith (lower ''Order_Total'') ''_id'' \<and>
   \<not> endswith (lower ''Order_Total'') ''_at'' \<and>
   \<not> any_tok temporal_tokens (lower ''Order_Total'') \<and>
   lower ''Order_Total'' \<notin> set [''ativo'', ''active''] \<and>
   \<not> categorize_boolean None (lower ''Order_Total'') \<and>
   categorize_column ''Order_Total'' Float64 = ''monetaria''"
  using categorize_column_monetary [of "''Order_Total''" Float64]
  by (simp add: lower_def lower_char_def endswith_def any_tok_def temporal_tokens_def
      categorize_boolean_def)

text \<open>
  Claim C9 as stated (the token \<open>total\<close>) fails for the column named \<open>total\<close>: it
  matches no rule of higher priority and is categorised by its type, as numeric or as
  categorical.
\<close>

theorem categorize_column_total_counterexample:
  "contains (lower ''total'') ''total'' \<and>
   \<not> endswith (lower ''total'') ''_id'' \<and>
   \<not> endswith (lower ''total'') ''_at'' \<and>
   \<not> any_tok temporal_tokens (lower ''total'') \<and>
   lower ''total'' \<notin> set [''ativo'', ''active''] \<and>
   \<not> categorize_boolean None (lower ''total'') \<and>
   categorize_column ''total'' Int64 = ''numerica'' \<and>
   categorize_column ''total'' Object = ''categorica''"
  by (simp add: lower_def lower_char_def endswith_def any_tok_def temporal_tokens_def
      monetary_tokens_def categorize_boolean_def categorize_column_def dtype_str_def)

section \<open>Tables without rows\<close>

lemma find_business_fields_empty:
  assumes "wf_table df" "nrows df = 0"
  shows "find_business_fields str_of df tu tn =
           (if 0 < tu \<and> 0 < tn
            then map (\<lambda>c. (cname c, \<lparr>unique_pct = 0, null_pct = 0, sample = []\<rparr>)) (cols df)
            else [])"
proof (cases "0 < tu \<and> 0 < tn")
  case True
  have "concat (map (business_field str_of 0 tu tn) (cols df)) =
        map (\<lambda>c. (cname c, \<lparr>unique_pct = 0, null_pct = 0, sample = []\<rparr>)) (cols df)"
    by (rule concat_map_single) (use True assms empty_table_cvals in \<open>simp add: business_field_def\<close>)
  then show ?thesis using True assms(2) by (simp add: find_business_fields_def)
next
  case False
  have "concat (map (business_field str_of 0 tu tn) (cols df)) = []"
    by (rule concat_map_Nil) (use False in \<open>auto simp: business_field_def\<close>)
  then show ?thesis using False assms(2) by (auto simp: find_business_fields_def)
qed

lemma pick_status_empty:
  assumes "wf_table df" "nrows df = 0"
  shows "pick_status df cs = None"
proof (induction cs)
  case Nil
  show ?case by simp
next
  case (Cons c cs)
  show ?case
  proof (cases "getitem df c")
    case None
    then show ?thesis using Cons by simp
  next
    case (Some col)
    then have "col \<in> set (cols df)"
      by (auto simp: getitem_def find_Some_iff)
    then have "cvals col = []" using assms empty_table_cvals by blast
    then show ?thesis using Some Cons by simp
  qed
qed

lemma detect_derived_fields_empty:
  assumes "wf_table df" "nrows df = 0"
  shows "detect_derived_fields pearson df thr = []"
proof -
  have "concat (map (\<lambda>num. if isnull_all (cvals num) then []
                else concat (map (\<lambda>(a, b). pair_suggestion pearson thr num a b) (pairs ds)))
              (filter (\<lambda>c. dtype_kind (cdtype c) \<in> set ''if'') (cols df))) = []" for ds
    by (rule concat_map_Nil) (use assms empty_table_cvals in \<open>auto simp: isnull_all_def\<close>)
  then show ?thesis by (simp add: detect_derived_fields_def Let_def)
qed

lemma business_field_member:
  assumes "(name, cand) \<in> set (business_field str_of n tu tn col)"
  shows "name = cname col \<and> unique_pct cand < tu \<and> null_pct cand < tn \<and>
         unique_pct cand = (if n \<noteq> 0 then of_nat (nunique (cvals col)) / of_nat n else 0) \<and>
         null_pct cand = (if n \<noteq> 0 then of_nat (isnull_sum (cvals col)) / of_nat n else 0)"
  using assms by (auto simp: business_field_def Let_def split: if_splits)

text \<open>
  Claim C3, as the code has it. On a table with no rows \<open>find_business_fields\<close> takes
  both ratios as 0 and so emits a candidate (ratios 0, empty sample) for every column
  when both thresholds are positive, as the defaults are, and none otherwise;
  \<open>detect_multivariate_rules\<close>, \<open>detect_dimension_candidates\<close>,
  \<open>detect_derived_fields\<close> and \<open>detect_workflow\<close> return their empty result. On
  every table, a candidate of \<open>find_business_fields\<close> belongs to a column whose
  unique ratio is strictly below \<open>threshold_unique\<close> and whose null ratio is strictly
  below \<open>threshold_null\<close>.
\<close>

theorem business_fields_and_empty_tables:
  "(wf_table df \<and> nrows df = 0 \<longrightarrow>
      find_business_fields str_of df threshold_unique threshold_null =
        (if 0 < threshold_unique \<and> 0 < threshold_null
         then map (\<lambda>c. (cname c, \<lparr>unique_pct = 0, null_pct = 0, sample = []\<rparr>)) (cols df)
         else []) \<and>
      detect_multivariate_rules str_of df max_cardinality max_violation = [] \<and>
      detect_dimension_candidates df max_cardinality_pct = [] \<and>
      detect_derived_fields pearson df corr_threshold = [] \<and>
      detect_workflow df status_col_candidates timestamp_col = Inr None) \<and>
   ((name, cand) \<in> set (find_business_fields str_of df threshold_unique threshold_null) \<longrightarrow>
      (\<exists>col. col \<in> set (cols df) \<and> name = cname col \<and>
         unique_pct cand =
           (if nrows df \<noteq> 0 then of_nat (nunique (cvals col)) / of_nat (nrows df) else 0) \<and>
         null_pct cand =
           (if nrows df \<noteq> 0 then of_nat (isnull_sum (cvals col)) / of_nat (nrows df) else 0)) \<and>
      unique_pct cand < threshold_unique \<and> null_pct cand < threshold_null)"
proof (intro conjI impI)
  assume "wf_table df \<and> nrows df = 0"
  then have e: "wf_table df" "nrows df = 0" by simp_all
  show "find_business_fields str_of df threshold_unique threshold_null =
        (if 0 < threshold_unique \<and> 0 < threshold_null
         then map (\<lambda>c. (cname c, \<lparr>unique_pct = 0, null_pct = 0, sample = []\<rparr>)) (cols df)
         else [])"
    using e by (rule find_business_fields_empty)
  show "detect_multivariate_rules str_of df max_cardinality max_violation = []"
    using e(2) by (simp add: detect_multivariate_rules_def)
  show "detect_dimension_candidates df max_cardinality_pct = []"
    using e(2) by (simp add: detect_dimension_candidates_def)
  show "detect_derived_fields pearson df corr_threshold = []"
    using e by (rule detect_derived_fields_empty)
  show "detect_workflow df status_col_candidates timestamp_col = Inr None"
    using pick_status_empty [OF e] by (simp add: detect_workflow_def)
next
  assume m: "(name, cand) \<in> set (find_business_fields str_of df threshold_unique threshold_null)"
  then obtain col where col: "col \<in> set (cols df)"
    "(name, cand) \<in> set (business_field str_of (nrows df) threshold_unique threshold_null col)"
    by (auto simp: find_business_fields_def)
  note b = business_field_member [OF col(2)]
  show "\<exists>col. col \<in> set (cols df) \<and> name = cname col \<and>
         unique_pct cand =
           (if nrows df \<noteq> 0 then of_nat (nunique (cvals col)) / of_nat (nrows df) else 0) \<and>
         null_pct cand =
           (if nrows df \<noteq> 0 then of_nat (isnull_sum (cvals col)) / of_nat (nrows df) else 0)"
    using col(1) b by blast
  show "unique_pct cand < threshold_unique" using b by simp
  show "null_pct cand < threshold_null" using b by simp
qed

text \<open>
  The theorem at the header-only table with the default thresholds, and at one of the
  candidates emitted there.
\<close>

theorem business_fields_and_empty_tables_witness:
  "wf_table header_only \<and> nrows header_only = 0 \<and>
   find_business_fields (\<lambda>v. []) header_only (1 / 10) (1 / 10) =
     [(''id'', \<lparr>unique_pct = 0, null_pct = 0, sample = []\<rparr>),
      (''name'', \<lparr>unique_pct = 0, null_pct = 0, sample = []\<rparr>)] \<and>
   detect_multivariate_rules (\<lambda>v. []) header_only 10 (1 / 20) = [] \<and>
   detect_dimension_candidates header_only (1 / 50) = [] \<and>
   detect_derived_fields (\<lambda>al. None) header_only (19 / 20) = [] \<and>
   detect_workflow header_only None ''updated_at'' = Inr None \<and>
   (''id'', \<lparr>unique_pct = 0, null_pct = 0, sample = []\<rparr>)
     \<in> set (find_business_fields (\<lambda>v. []) header_only (1 / 10) (1 / 10)) \<and>
   (0 :: rat) < 1 / 10"
  using business_fields_and_empty_tables
    [of header_only "\<lambda>v. []" "1 / 10" "1 / 10" 10 "1 / 20" "1 / 50" "\<lambda>al. None" "19 / 20"
      None "''updated_at''" "''id''" "\<lparr>unique_pct = 0, null_pct = 0, sample = []\<rparr>"]
  by (simp add: header_only_def wf_table_def find_business_fields_def business_field_def)

text \<open>
  Claim C3 as stated (an empty candidate mapping on a table with no rows) fails on the
  header-only table with the default thresholds: both columns are candidates.
\<close>

theorem find_business_fields_empty_table_counterexample:
  "wf_table header_only \<and> nrows header_only = 0 \<and>
   find_business_fields (\<lambda>v. []) header_only (1 / 10) (1 / 10) =
     [(''id'', \<lparr>unique_pct = 0, null_pct = 0, sample = []\<rparr>),
      (''name'', \<lparr>unique_pct = 0, null_pct = 0, sample = []\<rparr>)]"
  by (simp add: header_only_def wf_table_def find_business_fields_def business_field_def)

section \<open>Implicit foreign keys\<close>

lemma py_round_2_bounds:
  assumes "0 \<le> x" "x \<le> 1"
  shows "0 \<le> py_round x 2 \<and> py_round x 2 \<le> 1"
proof -
  define s where "s = x * 100"
  define f where "f = \<lfloor>s\<rfloor>"
  define r where "r = (if s - of_int f < 1 / 2 then f else if 1 / 2 < s - of_int f then f + 1
               else if even f then f else f + 1)"
  have pr: "py_round x 2 = of_int r / 100"
    by (simp add: py_round_def Let_def s_def f_def r_def)
  have s: "0 \<le> s" "s \<le> 100" using assms by (simp_all add: s_def)
  have f0: "0 \<le> f" using s(1) by (simp add: f_def)
  have f100: "f \<le> 100" using s(2) unfolding f_def by (simp add: floor_le_iff)
  have "r \<le> 100"
  proof (cases "f = 100")
    case True
    then have "s - of_int f \<le> 0" using s(2) by simp
    then show ?thesis using True by (simp add: r_def)
  next
    case False
    then have "f + 1 \<le> 100" using f100 by simp
    then show ?thesis by (simp add: r_def)
  qed
  moreover have "0 \<le> r" using f0 by (simp add: r_def)
  ultimately show ?thesis by (simp add: pr)
qed

lemma py_round_2_pos:
  assumes "1 / 200 < x"
  shows "0 < py_round x 2"
proof -
  define s where "s = x * 100"
  define f where "f = \<lfloor>s\<rfloor>"
  define r where "r = (if s - of_int f < 1 / 2 then f else if 1 / 2 < s - of_int f then f + 1
               else if even f then f else f + 1)"
  have pr: "py_round x 2 = of_int r / 100"
    by (simp add: py_round_def Let_def s_def f_def r_def)
  have s: "1 / 2 < s" using assms by (simp add: s_def)
  then have f0: "0 \<le> f" by (simp add: f_def)
  have "1 \<le> r"
  proof (cases "f = 0")
    case True
    then show ?thesis using s by (simp add: r_def)
  next
    case False
    then have "1 \<le> f" using f0 by simp
    then show ?thesis by (simp add: r_def)
  qed
  then show ?thesis by (simp add: pr)
qed

lemma overlap_ratio_le_1:
  assumes "distinct fk_values" "distinct pk_values" "fk_values \<noteq> []" "pk_values \<noteq> []"
  shows "(of_nat (length (filter (\<lambda>v. v \<in> set pk_values) fk_values)) :: rat)
           / of_nat (min (length fk_values) (length pk_values)) \<le> 1"
proof -
  let ?ov = "filter (\<lambda>v. v \<in> set pk_values) fk_values"
  have "distinct ?ov" using assms(1) by simp
  then have "length ?ov = card (set ?ov)" by (rule distinct_card [symmetric])
  also have "\<dots> \<le> card (set pk_values)" by (rule card_mono) auto
  also have "\<dots> = length pk_values" using assms(2) by (simp add: distinct_card)
  finally have "length ?ov \<le> length pk_values" .
  moreover have "length ?ov \<le> length fk_values" by simp
  ultimately have le: "length ?ov \<le> min (length fk_values) (length pk_values)" by simp
  have pos: "0 < min (length fk_values) (length pk_values)" using assms(3,4) by simp
  have "(of_nat (length ?ov) :: rat) \<le> of_nat (min (length fk_values) (length pk_values))"
    using le by (simp only: of_nat_le_iff)
  then show ?thesis using pos by (simp add: divide_le_eq_1)
qed

lemma consider_pk_inv:
  assumes "distinct fk_values" "fk_values \<noteq> []" "search_inv st"
  shows "search_inv (consider_pk fk_values tbl_to pkc st)"
proof (cases "unique (dropna (cvals pkc)) = []")
  case True
  then show ?thesis using assms(3) by (simp add: consider_pk_def)
next
  case False
  let ?pk = "unique (dropna (cvals pkc))"
  let ?ratio = "(of_nat (length (filter (\<lambda>v. v \<in> set ?pk) fk_values)) :: rat)
           / of_nat (min (length fk_values) (length ?pk))"
  have le: "?ratio \<le> 1"
    using overlap_ratio_le_1 [OF assms(1) distinct_unique assms(2) False] .
  show ?thesis
  proof (cases "snd st < ?ratio")
    case True
    then have "consider_pk fk_values tbl_to pkc st = (Some (tbl_to, cname pkc), ?ratio)"
      using False by (simp add: consider_pk_def Let_def)
    moreover have "0 < ?ratio" using True assms(3) by (simp add: search_inv_def)
    ultimately show ?thesis using le by (simp add: search_inv_def)
  next
    case False
    then have "consider_pk fk_values tbl_to pkc st = st"
      by (simp add: consider_pk_def Let_def)
    then show ?thesis using assms(3) by simp
  qed
qed

lemma foldl_consider_pk_inv:
  assumes "distinct fk_values" "fk_values \<noteq> []"
  shows "search_inv st \<Longrightarrow>
         search_inv (foldl (\<lambda>st' pkc. consider_pk fk_values tbl_to pkc st') st pks)"
  by (induction pks arbitrary: st) (simp_all add: consider_pk_inv [OF assms])

lemma best_candidate_inv:
  assumes "distinct fk_values" "fk_values \<noteq> []"
  shows "search_inv (best_candidate tables_dfs tbl_from fk_values)"
proof -
  have "search_inv st \<Longrightarrow>
        search_inv (foldl (\<lambda>st (tbl_to, df_to).
              if tbl_from = tbl_to then st
              else foldl (\<lambda>st' pkc. consider_pk fk_values tbl_to pkc st') st (pk_cols df_to))
           st ts)" for st ts
  proof (induction ts arbitrary: st)
    case Nil
    then show ?case by simp
  next
    case (Cons t ts)
    obtain tbl_to df_to where t: "t = (tbl_to, df_to)" by (cases t)
    have "search_inv (if tbl_from = tbl_to then st
              else foldl (\<lambda>st' pkc. consider_pk fk_values tbl_to pkc st') st (pk_cols df_to))"
      using Cons.prems foldl_consider_pk_inv [OF assms] by simp
    then show ?case
      using t Cons.IH by simp
  qed
  moreover have "search_inv (None, 0)" by (simp add: search_inv_def)
  ultimately show ?thesis unfolding best_candidate_def by blast
qed

lemma suggest_fk_member:
  assumes "s \<in> set (suggest_fk tables_dfs existing_rels m tbl_from col)"
  shows "from_table s = tbl_from \<and> fk s = cname col \<and>
         \<not> list_ex (\<lambda>rel. from_table rel = tbl_from \<and> fk rel = cname col) existing_rels \<and>
         dropna (cvals col) \<noteq> [] \<and>
         (\<exists>r. 0 < r \<and> r \<le> 1 \<and> m \<le> r \<and> confidence s = py_round r 2)"
proof -
  let ?fk = "unique (dropna (cvals col))"
  have ne: "\<not> list_ex (\<lambda>rel. from_table rel = tbl_from \<and> fk rel = cname col) existing_rels"
    using assms by (auto simp: suggest_fk_def split: if_splits)
  have fk: "?fk \<noteq> []"
    using assms ne by (auto simp: suggest_fk_def Let_def split: if_splits)
  then have dn: "dropna (cvals col) \<noteq> []" by auto
  obtain bm br where b: "best_candidate tables_dfs tbl_from ?fk = (bm, br)"
    by (cases "best_candidate tables_dfs tbl_from ?fk")
  have inv: "search_inv (bm, br)"
    using best_candidate_inv [OF distinct_unique fk, of tables_dfs tbl_from] b by simp
  from assms ne fk b obtain best_match where bm: "bm = Some best_match" "m \<le> br"
    "s = \<lparr>from_table = tbl_from, fk = cname col, to_table = fst best_match,
          pk = snd best_match, confidence = py_round br 2\<rparr>"
    by (auto simp: suggest_fk_def Let_def split: if_splits option.splits)
  have "0 < br \<and> br \<le> 1" using inv bm(1) by (simp add: search_inv_def)
  then show ?thesis using ne dn bm by auto
qed

text \<open>
  Claim C4, as the code has it. Every suggestion of \<open>infer_implicit_fks\<close> has a
  confidence in \<open>[0, 1]\<close>, and in \<open>(0, 1]\<close> when \<open>min_overlap_ratio\<close> is above
  0.005 (the default is 0.5); no relationship of \<open>existing_rels\<close> has its table and
  foreign-key column; and its foreign-key column is a column of its table, named
  \<open>\<dots>_id\<close>, with at least one non-null value.
\<close>

theorem infer_implicit_fks_suggestion:
  assumes "s \<in> set (infer_implicit_fks tables_dfs existing_rels min_overlap_ratio)"
  shows "0 \<le> confidence s \<and> confidence s \<le> 1 \<and>
         (1 / 200 < min_overlap_ratio \<longrightarrow> 0 < confidence s) \<and>
         \<not> list_ex (\<lambda>rel. from_table rel = from_table s \<and> fk rel = fk s) existing_rels \<and>
         (\<exists>df col. (from_table s, df) \<in> set tables_dfs \<and> col \<in> set (cols df) \<and>
            cname col = fk s \<and> endswith (fk s) ''_id'' \<and> dropna (cvals col) \<noteq> [])"
proof -
  from assms obtain tbl_from df_from col where src:
    "(tbl_from, df_from) \<in> set tables_dfs" "col \<in> set (cols df_from)"
    "endswith (cname col) ''_id''"
    "s \<in> set (suggest_fk tables_dfs existing_rels min_overlap_ratio tbl_from col)"
    by (auto simp: infer_implicit_fks_def)
  note m = suggest_fk_member [OF src(4)]
  then obtain r where r: "0 < r" "r \<le> 1" "min_overlap_ratio \<le> r" "confidence s = py_round r 2"
    by blast
  have "0 \<le> confidence s \<and> confidence s \<le> 1"
    using py_round_2_bounds [of r] r by simp
  moreover have "0 < confidence s" if "1 / 200 < min_overlap_ratio"
    using py_round_2_pos [of r] r that by simp
  moreover have "\<not> list_ex (\<lambda>rel. from_table rel = from_table s \<and> fk rel = fk s) existing_rels"
    using m by simp
  moreover have "\<exists>df col. (from_table s, df) \<in> set tables_dfs \<and> col \<in> set (cols df) \<and>
            cname col = fk s \<and> endswith (fk s) ''_id'' \<and> dropna (cvals col) \<noteq> []"
    using src(1-3) m by auto
  ultimately show ?thesis by blast
qed

text \<open>
  The theorem at the suggestion \<open>A.order_id \<rightarrow> B.id\<close> with confidence 1, made for
  \<open>order_id = [1, 2, 3]\<close> and the key \<open>id = [1, 2, 3, 4]\<close> at the default ratio.
\<close>

theorem infer_implicit_fks_suggestion_witness:
  "\<lparr>from_table = ''A'', fk = ''order_id'', to_table = ''B'', pk = ''id'', confidence = 1\<rparr>
     \<in> set (infer_implicit_fks order_tables [] (1 / 2)) \<and>
   (1 :: rat) / 200 < 1 / 2 \<and>
   0 < confidence \<lparr>from_table = ''A'', fk = ''order_id'', to_table = ''B'', pk = ''id'',
                   confidence = 1\<rparr>"
proof -
  have mem: "\<lparr>from_table = ''A'', fk = ''order_id'', to_table = ''B'', pk = ''id'',
              confidence = 1\<rparr> \<in> set (infer_implicit_fks order_tables [] (1 / 2))"
    by code_simp
  show ?thesis using infer_implicit_fks_suggestion [OF mem] mem by simp
qed

lemma unique_distinct: "distinct xs \<Longrightarrow> unique xs = xs"
  by (simp add: unique_def distinct_remdups_id)

lemma dropna_map_Some [simp]: "dropna (map (\<lambda>i. Some (f i)) xs) = map f xs"
  by (induction xs) auto

lemma num_values: "unique (dropna (num_cells lo hi)) = map (\<lambda>i. Num (of_nat i)) [lo..<hi]"
  by (simp add: num_cells_def unique_distinct distinct_map inj_on_def)

lemma is_pk_num_cells: "is_pk \<lparr>cname = n, cdtype = d, cvals = num_cells lo hi\<rparr>"
  by (auto simp: is_pk_def is_unique_def isnull_any_def num_cells_def distinct_map inj_on_def
      list_ex_iff)

lemma sparse_overlap:
  assumes "lo \<le> m" "m < hi"
  shows "filter (\<lambda>v. v \<in> set (map (\<lambda>i. Num (of_nat i)) [m..<hi]))
          (map (\<lambda>i. Num (of_nat i)) [lo..<Suc m]) = [Num (of_nat m)]"
proof -
  have "filter (\<lambda>v. v \<in> set (map (\<lambda>i. Num (of_nat i)) [m..<hi]))
          (map (\<lambda>i. Num (of_nat i)) [lo..<m]) = []"
    by (auto simp: filter_empty_conv)
  then show ?thesis using assms by (simp add: upt_Suc_append)
qed

lemma sparse_tables_consider:
  assumes "lo \<le> m" "m < hi"
  shows "consider_pk (map (\<lambda>i. Num (of_nat i)) [lo..<Suc m]) ''customers''
           \<lparr>cname = ''code'', cdtype = Int64, cvals = num_cells m hi\<rparr> (None, 0)
         = (Some (''customers'', ''code''), 1 / of_nat (min (Suc m - lo) (hi - m)))"
proof -
  let ?pkc = "\<lparr>cname = ''code'', cdtype = Int64, cvals = num_cells m hi\<rparr>"
  let ?fk = "map (\<lambda>i. Num (of_nat i)) [lo..<Suc m]"
  have pv: "unique (dropna (cvals ?pkc)) = map (\<lambda>i. Num (of_nat i)) [m..<hi]"
    by (simp add: num_values)
  have ov: "filter (\<lambda>v. v \<in> set (unique (dropna (cvals ?pkc)))) ?fk = [Num (of_nat m)]"
    unfolding pv by (rule sparse_overlap [OF assms])
  have len: "length (unique (dropna (cvals ?pkc))) = hi - m" "length ?fk = Suc m - lo"
    unfolding pv by (simp_all del: upt_Suc)
  have pos: "(0 :: rat) < 1 / of_nat (min (Suc m - lo) (hi - m))"
    using assms by simp
  show ?thesis
    unfolding consider_pk_def Let_def ov len using assms pos by simp
qed

lemma sparse_tables_best:
  assumes "lo \<le> m" "m < hi"
  shows "best_candidate (sparse_tables lo m hi) ''orders'' (map (\<lambda>i. Num (of_nat i)) [lo..<Suc m])
     = (Some (''customers'', ''code''), 1 / of_nat (min (Suc m - lo) (hi - m)))"
  unfolding best_candidate_def sparse_tables_def
  by (simp add: pk_cols_def is_pk_num_cells sparse_tables_consider [OF assms] del: upt_Suc)

lemma sparse_tables_suggestion:
  assumes "lo \<le> m" "m < hi" "thr \<le> 1 / of_nat (min (Suc m - lo) (hi - m))"
  shows "infer_implicit_fks (sparse_tables lo m hi) [] thr =
     [\<lparr>from_table = ''orders'', fk = ''customer_id'', to_table = ''customers'', pk = ''code'',
       confidence = py_round (1 / of_nat (min (Suc m - lo) (hi - m))) 2\<rparr>]"
proof -
  have "suggest_fk (sparse_tables lo m hi) [] thr ''orders''
          \<lparr>cname = ''customer_id'', cdtype = Int64, cvals = num_cells lo (Suc m)\<rparr> =
        [\<lparr>from_table = ''orders'', fk = ''customer_id'', to_table = ''customers'', pk = ''code'',
          confidence = py_round (1 / of_nat (min (Suc m - lo) (hi - m))) 2\<rparr>]"
    using assms by (simp add: suggest_fk_def num_values sparse_tables_best del: upt_Suc)
  then show ?thesis
    by (simp add: infer_implicit_fks_def endswith_def)
      (simp add: sparse_tables_def endswith_def)
qed

text \<open>
  Claim C4 as stated (a confidence in \<open>(0, 1]\<close> for every suggestion) fails when the
  caller lowers \<open>min_overlap_ratio\<close>: \<open>orders.customer_id\<close> holds 1..250,
  \<open>customers.code\<close> holds 250..499, the overlap ratio is 1/250, and with a ratio
  threshold of 0.001 the suggestion is made with confidence \<open>round(0.004, 2) = 0\<close>.
\<close>

theorem infer_implicit_fks_confidence_counterexample:
  "infer_implicit_fks (sparse_tables 1 250 500) [] (1 / 1000) =
     [\<lparr>from_table = ''orders'', fk = ''customer_id'', to_table = ''customers'', pk = ''code'',
       confidence = 0\<rparr>]"
proof -
  have r: "py_round (1 / 250) 2 = 0" by code_simp
  show ?thesis using sparse_tables_suggestion [of 1 250 500 "1 / 1000"] r by simp
qed

section \<open>Multivariate rules\<close>

lemma subset_rows_count:
  "length (filter (\<lambda>(c, t). c = v)
     (concat (map (\<lambda>(c, t). case c of None \<Rightarrow> [] | Some v \<Rightarrow> [(v, t)]) z))) =
   length (filter (\<lambda>(c, t). c = Some v) z)"
proof (induction z)
  case Nil
  show ?case by simp
next
  case (Cons x z)
  obtain c t where x: "x = (c, t)" by (cases x)
  show ?case using Cons x by (cases c) simp_all
qed

lemma subset_rows_null_count:
  "length (filter (\<lambda>(c, t). t = None) (filter (\<lambda>(c, t). c = v)
     (concat (map (\<lambda>(c, t). case c of None \<Rightarrow> [] | Some v \<Rightarrow> [(v, t)]) z)))) =
   length (filter (\<lambda>(c, t). c = Some v \<and> t = None) z)"
proof (induction z)
  case Nil
  show ?case by simp
next
  case (Cons x z)
  obtain c t where x: "x = (c, t)" by (cases x)
  show ?case using Cons x by (cases c) (simp_all del: filter_filter)
qed

lemma subset_rows_values:
  "length cs = length ts \<Longrightarrow>
   set (map fst (concat (map (\<lambda>(c, t). case c of None \<Rightarrow> [] | Some v \<Rightarrow> [(v, t)]) (zip cs ts))))
     = set (dropna cs)"
proof (induction cs ts rule: list_induct2)
  case Nil
  show ?case by simp
next
  case (Cons c cs t ts)
  then show ?case by (cases c) auto
qed

lemma value_rows_exist:
  "length cs = length ts \<Longrightarrow> v \<in> set (dropna cs) \<Longrightarrow>
   0 < length (filter (\<lambda>(c, t). c = Some v) (zip cs ts))"
proof (induction cs ts rule: list_induct2)
  case Nil
  then show ?case by simp
next
  case (Cons c cs t ts)
  then show ?case by (cases c) auto
qed

lemma two_values:
  assumes "distinct xs" "set xs = {a, b}" "a \<noteq> b"
  shows "xs = [a, b] \<or> xs = [b, a]"
proof -
  have "length xs = 2" using assms by (metis distinct_card card_2_iff)
  then obtain x y where xy: "xs = [x, y]"
    by (metis (no_types) length_0_conv length_Suc_conv numeral_2_eq_2)
  then show ?thesis using assms by (auto simp: doubleton_eq_iff)
qed

lemma py_round_0 [simp]: "py_round 0 n = 0"
  by (simp add: py_round_def)


lemma value_rule_zero:
  assumes "0 < length (filter (\<lambda>(c, t). c = v) s)"
    and "length (filter (\<lambda>(c, t). t = None) (filter (\<lambda>(c, t). c = v) s)) = 0"
    and "0 \<le> mv"
  shows "value_rule str_of mv cond target s v =
           [\<lparr>condition = cond @ '' = '' @ str_of v, requirement = target @ '' != null'',
             violation_pct = 0\<rparr>]"
proof -
  have "filter (\<lambda>(c, t). c = v) s \<noteq> []" using assms(1) by auto
  then show ?thesis using assms(2,3) by (simp add: value_rule_def Let_def del: filter_filter length_0_conv)
qed

lemma value_rule_half:
  assumes "length (filter (\<lambda>(c, t). c = v) s) = 2 * k"
    and "length (filter (\<lambda>(c, t). t = None) (filter (\<lambda>(c, t). c = v) s)) = k"
    and "0 < k" and "mv < 1 / 2"
  shows "value_rule str_of mv cond target s v = []"
proof -
  have "(of_nat k :: rat) / of_nat (2 * k) = 1 / 2" using assms(3) by simp
  then have "\<not> (of_nat k :: rat) / of_nat (2 * k) \<le> mv" using assms(4) by simp
  then show ?thesis using assms(1,2) by (simp add: value_rule_def Let_def del: filter_filter of_nat_mult)
qed


lemma in_concat_map: "x \<in> set xs \<Longrightarrow> r \<in> set (f x) \<Longrightarrow> r \<in> set (concat (map f xs))"
  by auto

lemma pair_rules_in_result:
  assumes "nrows df \<noteq> 0"
    and "cond \<in> set (cols df)" "int (nunique (cvals cond)) \<le> mc"
    and "target \<in> set (cols df)"
    and "cname target \<notin> set (map cname (filter (\<lambda>c. int (nunique (cvals c)) \<le> mc) (cols df)))"
    and "r \<in> set (pair_rules str_of mv cond target)"
  shows "r \<in> set (detect_multivariate_rules str_of df mc mv)"
proof -
  define conds where "conds = filter (\<lambda>c. int (nunique (cvals c)) \<le> mc) (cols df)"
  define targets where "targets = filter (\<lambda>c. cname c \<notin> set (map cname conds)) (cols df)"
  have c: "cond \<in> set conds" using assms(2,3) by (simp add: conds_def)
  have t: "target \<in> set targets" using assms(4,5) by (simp add: targets_def conds_def)
  have "r \<in> set (concat (map (pair_rules str_of mv cond) targets))"
    using t assms(6) by (rule in_concat_map)
  with c have "r \<in> set (concat (map (\<lambda>cond. concat (map (pair_rules str_of mv cond) targets)) conds))"
    by (rule in_concat_map)
  moreover have "detect_multivariate_rules str_of df mc mv =
     concat (map (\<lambda>cond. concat (map (pair_rules str_of mv cond) targets)) conds)"
    unfolding detect_multivariate_rules_def Let_def targets_def conds_def
    using assms(1) by (simp only: if_False)
  ultimately show ?thesis by simp
qed

lemma pair_rules_type_email:
  assumes len: "length (cvals tc) = length (cvals ec)"
    and vals: "set (dropna (cvals tc)) = {A, B}" "A \<noteq> B"
    and a_rows: "filter (\<lambda>(c, t). c = Some A \<and> t = None) (zip (cvals tc) (cvals ec)) = []"
    and b_rows: "length (filter (\<lambda>(c, t). c = Some B) (zip (cvals tc) (cvals ec))) =
                 2 * length (filter (\<lambda>(c, t). c = Some B \<and> t = None) (zip (cvals tc) (cvals ec)))"
  shows "pair_rules str_of (1 / 20) tc ec =
           [\<lparr>condition = cname tc @ '' = '' @ str_of A, requirement = cname ec @ '' != null'',
             violation_pct = 0\<rparr>]"
proof -
  define z where "z = zip (cvals tc) (cvals ec)"
  define s where "s = concat (map (\<lambda>(c, t). case c of None \<Rightarrow> [] | Some v \<Rightarrow> [(v, t)]) z)"
  let ?r = "\<lparr>condition = cname tc @ '' = '' @ str_of A, requirement = cname ec @ '' != null'',
             violation_pct = 0\<rparr>"
  have sv: "set (map fst s) = {A, B}"
    unfolding s_def z_def using subset_rows_values [OF len] vals(1) by simp
  have ina: "A \<in> set (dropna (cvals tc))" and inb: "B \<in> set (dropna (cvals tc))"
    unfolding vals(1) by simp_all
  have na: "0 < length (filter (\<lambda>(c, t). c = Some A) z)"
    unfolding z_def using len ina by (rule value_rows_exist)
  have nb: "0 < length (filter (\<lambda>(c, t). c = Some B) z)"
    unfolding z_def using len inb by (rule value_rows_exist)
  have ca: "0 < length (filter (\<lambda>(c, t). c = A) s)"
    unfolding s_def using na by (simp only: subset_rows_count)
  have cb: "length (filter (\<lambda>(c, t). c = B) s) =
            2 * length (filter (\<lambda>(c, t). c = Some B \<and> t = None) z)"
    unfolding s_def using b_rows by (simp only: subset_rows_count z_def)
  have za: "length (filter (\<lambda>(c, t). t = None) (filter (\<lambda>(c, t). c = A) s)) = 0"
    unfolding s_def using a_rows by (simp only: subset_rows_null_count z_def list.size)
  have zb: "length (filter (\<lambda>(c, t). t = None) (filter (\<lambda>(c, t). c = B) s)) =
            length (filter (\<lambda>(c, t). c = Some B \<and> t = None) z)"
    unfolding s_def by (simp only: subset_rows_null_count)
  have kb: "0 < length (filter (\<lambda>(c, t). c = Some B \<and> t = None) z)"
    using nb b_rows unfolding z_def by simp
  have ne: "s \<noteq> []" using ca by auto
  have ra: "value_rule str_of (1 / 20) (cname tc) (cname ec) s A = [?r]"
    using ca za by (rule value_rule_zero) simp
  have rb: "value_rule str_of (1 / 20) (cname tc) (cname ec) s B = []"
    using cb zb kb by (rule value_rule_half) simp
  have "unique (map fst s) = [A, B] \<or> unique (map fst s) = [B, A]"
    using sv vals(2) by (intro two_values) simp_all
  then have "concat (map (value_rule str_of (1 / 20) (cname tc) (cname ec) s) (unique (map fst s)))
             = [?r]"
    using ra rb by auto
  then show ?thesis
    using ne unfolding pair_rules_def Let_def s_def z_def by simp
qed

lemma rule_origin:
  assumes "r \<in> set (detect_multivariate_rules str_of df mc mv)"
  shows "\<exists>cond target. cond \<in> set (cols df) \<and> target \<in> set (cols df) \<and>
           r \<in> set (pair_rules str_of mv cond target)"
proof -
  define conds where "conds = filter (\<lambda>c. int (nunique (cvals c)) \<le> mc) (cols df)"
  define targets where "targets = filter (\<lambda>c. cname c \<notin> set (map cname conds)) (cols df)"
  have "nrows df \<noteq> 0"
  proof
    assume "nrows df = 0"
    then have "detect_multivariate_rules str_of df mc mv = []"
      by (simp add: detect_multivariate_rules_def)
    then show False using assms by simp
  qed
  then have "detect_multivariate_rules str_of df mc mv =
     concat (map (\<lambda>cond. concat (map (pair_rules str_of mv cond) targets)) conds)"
    unfolding detect_multivariate_rules_def Let_def targets_def conds_def
    by (simp only: if_False)
  then obtain cond target where "cond \<in> set conds" "target \<in> set targets"
    "r \<in> set (pair_rules str_of mv cond target)"
    using assms by auto
  then show ?thesis unfolding conds_def targets_def by auto
qed

lemma pair_rules_strings:
  assumes "r \<in> set (pair_rules str_of mv cond target)"
  shows "\<exists>v. condition r = cname cond @ '' = '' @ str_of v \<and>
             requirement r = cname target @ '' != null''"
  using assms
  by (auto simp: pair_rules_def value_rule_def Let_def split: if_splits)

lemma type_condition_name:
  assumes "c @ '' = '' @ s = ''type = '' @ sB" and "\<not> startswith c ''type ''"
  shows "c = ''type''"
proof -
  have e: "c @ CHR '' '' # CHR ''='' # CHR '' '' # s =
           CHR ''t'' # CHR ''y'' # CHR ''p'' # CHR ''e'' # CHR '' '' # CHR ''='' # CHR '' '' # sB"
    using assms(1) by simp
  show ?thesis
  proof (cases c)
    case Nil
    then show ?thesis using e by simp
  next
    case c1: (Cons x1 r1)
    show ?thesis
    proof (cases r1)
      case Nil
      then show ?thesis using e c1 by simp
    next
      case c2: (Cons x2 r2)
      show ?thesis
      proof (cases r2)
        case Nil
        then show ?thesis using e c1 c2 by simp
      next
        case c3: (Cons x3 r3)
        show ?thesis
        proof (cases r3)
          case Nil
          then show ?thesis using e c1 c2 c3 by simp
        next
          case c4: (Cons x4 r4)
          show ?thesis
          proof (cases r4)
            case Nil
            then show ?thesis using e c1 c2 c3 c4 by simp
          next
            case c5: (Cons x5 r5)
            then have "startswith c ''type ''" using e c1 c2 c3 c4 by simp
            then show ?thesis using assms(2) by simp
          qed
        qed
      qed
    qed
  qed
qed

lemma email_requirement_name:
  assumes "t @ '' != null'' = ''email != null''"
  shows "t = ''email''"
proof -
  have "t @ '' != null'' = ''email'' @ '' != null''" using assms by simp
  then show ?thesis by (simp only: append_same_eq)
qed

text \<open>
  Claim C5. \<open>type\<close> is a condition column (its two values \<open>A\<close> and \<open>B\<close> do not
  exceed \<open>max_cardinality\<close>) and \<open>email\<close> is a target column (it has more than
  \<open>max_cardinality\<close> distinct values); no row of type \<open>A\<close> lacks an e-mail and half
  of the rows of type \<open>B\<close> do. With \<open>max_violation = 0.05\<close> the result of
  \<open>detect_multivariate_rules\<close> contains the rule that \<open>type = A\<close> requires
  \<open>email != null\<close>, with violation 0, and no rule that \<open>type = B\<close> requires
  \<open>email != null\<close>; the pair (\<open>type\<close>, \<open>email\<close>) contributes the first rule and
  nothing else.

  Rules are texts, \<open>f"{cond} = {val}"\<close>. For the text of the \<open>B\<close> rule to stand for
  that rule alone, \<open>A\<close> and \<open>B\<close> are printed differently and no column has a name
  that begins with \<open>type\<close> and a blank.
\<close>

theorem type_email_rule:
  assumes wf: "wf_table df"
    and tc: "tc \<in> set (cols df)" "cname tc = ''type''"
    and ec: "ec \<in> set (cols df)" "cname ec = ''email''"
    and vals: "set (dropna (cvals tc)) = {A, B}" "A \<noteq> B"
    and card: "2 \<le> max_cardinality" "max_cardinality < int (nunique (cvals ec))"
    and a_rows: "filter (\<lambda>(c, t). c = Some A \<and> t = None) (zip (cvals tc) (cvals ec)) = []"
    and b_rows: "length (filter (\<lambda>(c, t). c = Some B) (zip (cvals tc) (cvals ec))) =
                 2 * length (filter (\<lambda>(c, t). c = Some B \<and> t = None) (zip (cvals tc) (cvals ec)))"
    and str: "str_of A \<noteq> str_of B"
    and names: "list_all (\<lambda>c. \<not> startswith (cname c) ''type '') (cols df)"
  shows "\<lparr>condition = ''type = '' @ str_of A, requirement = ''email != null'', violation_pct = 0\<rparr>
           \<in> set (detect_multivariate_rules str_of df max_cardinality (1 / 20)) \<and>
         (\<forall>r \<in> set (detect_multivariate_rules str_of df max_cardinality (1 / 20)).
            \<not> (condition r = ''type = '' @ str_of B \<and> requirement r = ''email != null'')) \<and>
         pair_rules str_of (1 / 20) tc ec =
           [\<lparr>condition = ''type = '' @ str_of A, requirement = ''email != null'',
             violation_pct = 0\<rparr>]"
proof -
  let ?r = "\<lparr>condition = ''type = '' @ str_of A, requirement = ''email != null'',
             violation_pct = 0\<rparr>"
  let ?out = "detect_multivariate_rules str_of df max_cardinality (1 / 20)"
  have len: "length (cvals tc) = length (cvals ec)"
    using wf tc(1) ec(1) by (simp add: wf_table_length)
  have pr: "pair_rules str_of (1 / 20) tc ec = [?r]"
    using pair_rules_type_email [OF len vals a_rows b_rows, of str_of] tc(2) ec(2) by simp
  have n0: "nrows df \<noteq> 0"
  proof
    assume "nrows df = 0"
    then have "cvals tc = []" using wf tc(1) empty_table_cvals by blast
    then show False using vals(1) by simp
  qed
  have "card (set (dropna (cvals tc))) = 2"
    unfolding vals(1) using vals(2) by simp
  then have cond: "int (nunique (cvals tc)) \<le> max_cardinality"
    using card(1) by (simp only: nunique_def length_unique)
  have target: "cname ec \<notin> set (map cname
         (filter (\<lambda>c. int (nunique (cvals c)) \<le> max_cardinality) (cols df)))"
  proof
    assume "cname ec \<in> set (map cname
         (filter (\<lambda>c. int (nunique (cvals c)) \<le> max_cardinality) (cols df)))"
    then obtain c where c: "c \<in> set (cols df)" "int (nunique (cvals c)) \<le> max_cardinality"
      "cname c = cname ec" by auto
    then have "c = ec" using wf ec(1) wf_table_name_inj by blast
    then show False using c(2) card(2) by simp
  qed
  have "?r \<in> set (pair_rules str_of (1 / 20) tc ec)"
    unfolding pr by simp
  with n0 tc(1) cond ec(1) target
  have mem: "?r \<in> set ?out"
    by (rule pair_rules_in_result)
  have nob: "\<not> (condition r = ''type = '' @ str_of B \<and> requirement r = ''email != null'')"
    if r: "r \<in> set ?out" for r
  proof
    assume b: "condition r = ''type = '' @ str_of B \<and> requirement r = ''email != null''"
    from rule_origin [OF r] obtain c t where ct: "c \<in> set (cols df)" "t \<in> set (cols df)"
      "r \<in> set (pair_rules str_of (1 / 20) c t)" by blast
    from pair_rules_strings [OF ct(3)] obtain v where v:
      "condition r = cname c @ '' = '' @ str_of v" "requirement r = cname t @ '' != null''"
      by blast
    have "cname t = ''email''"
      using v(2) b by (intro email_requirement_name) simp
    then have t: "t = ec" using wf ct(2) ec wf_table_name_inj by metis
    have "\<not> startswith (cname c) ''type ''"
      using names ct(1) by (simp add: list_all_iff)
    moreover have "cname c @ '' = '' @ str_of v = ''type = '' @ str_of B"
      using v(1) b by simp
    ultimately have "cname c = ''type''" by (rule type_condition_name [rotated])
    then have c: "c = tc" using wf ct(1) tc wf_table_name_inj by metis
    have "r = ?r" using ct(3) pr c t by simp
    then have "''type = '' @ str_of A = ''type = '' @ str_of B" using b by simp
    then show False using str by simp
  qed
  show ?thesis using mem nob pr by blast
qed

text \<open>
  The theorem at the table \<open>contacts\<close> with the default \<open>max_cardinality = 10\<close>;
  there the rule for \<open>type = A\<close> is the whole result.
\<close>

theorem type_email_rule_witness:
  "wf_table contacts \<and>
   set (dropna (replicate 11 (Some (Str ''A'')) @ replicate 2 (Some (Str ''B'')))) =
     {Str ''A'', Str ''B''} \<and>
   str_text (Str ''A'') \<noteq> str_text (Str ''B'') \<and>
   detect_multivariate_rules str_text contacts 10 (1 / 20) =
     [\<lparr>condition = ''type = A'', requirement = ''email != null'', violation_pct = 0\<rparr>]"
proof -
  let ?tc = "\<lparr>cname = ''type'', cdtype = Object,
               cvals = replicate 11 (Some (Str ''A'')) @ replicate 2 (Some (Str ''B''))\<rparr>"
  let ?ec = "\<lparr>cname = ''email'', cdtype = Object,
               cvals = [Some (Str ''a@x''), Some (Str ''b@x''), Some (Str ''c@x''),
                        Some (Str ''d@x''), Some (Str ''e@x''), Some (Str ''f@x''),
                        Some (Str ''g@x''), Some (Str ''h@x''), Some (Str ''i@x''),
                        Some (Str ''j@x''), Some (Str ''k@x''), Some (Str ''l@x''), None]\<rparr>"
  have wf: "wf_table contacts" by code_simp
  have tc: "?tc \<in> set (cols contacts)" "cname ?tc = ''type''" by (simp_all add: contacts_def)
  have ec: "?ec \<in> set (cols contacts)" "cname ?ec = ''email''" by (simp_all add: contacts_def)
  have vals: "set (dropna (cvals ?tc)) = {Str ''A'', Str ''B''}" "Str ''A'' \<noteq> Str ''B''"
    by code_simp+
  have card: "(2 :: int) \<le> 10" "10 < int (nunique (cvals ?ec))" by code_simp+
  have a_rows: "filter (\<lambda>(c, t). c = Some (Str ''A'') \<and> t = None) (zip (cvals ?tc) (cvals ?ec)) = []"
    by code_simp
  have b_rows: "length (filter (\<lambda>(c, t). c = Some (Str ''B'')) (zip (cvals ?tc) (cvals ?ec))) =
      2 * length (filter (\<lambda>(c, t). c = Some (Str ''B'') \<and> t = None) (zip (cvals ?tc) (cvals ?ec)))"
    by code_simp
  have str: "str_text (Str ''A'') \<noteq> str_text (Str ''B'')" by simp
  have names: "list_all (\<lambda>c. \<not> startswith (cname c) ''type '') (cols contacts)" by code_simp
  have res: "detect_multivariate_rules str_text contacts 10 (1 / 20) =
     [\<lparr>condition = ''type = A'', requirement = ''email != null'', violation_pct = 0\<rparr>]"
    by code_simp
  note type_email_rule [OF wf tc ec vals card a_rows b_rows str names]
  then show ?thesis using wf vals(1) str res by simp
qed

section \<open>Workflow detection\<close>

lemma wf_table_index: "wf_table df \<Longrightarrow> length (index df) = nrows df"
  by (simp add: wf_table_def)

lemma getitem_absent: "name \<notin> set (df_columns df) \<Longrightarrow> getitem df name = None"
  by (auto simp: getitem_def df_columns_def find_None_iff)

lemma getitem_member: "getitem df name = Some c \<Longrightarrow> c \<in> set (cols df)"
  by (auto simp: getitem_def find_Some_iff)

lemma pick_status_member: "pick_status df cs = Some sc \<Longrightarrow> sc \<in> set (cols df)"
  by (induction cs) (auto split: option.splits if_splits dest: getitem_member)

lemma timestamp_column_member: "timestamp_column df ts = Some tc \<Longrightarrow> tc \<in> set (cols df)"
  by (auto simp: timestamp_column_def split: option.splits if_splits dest: getitem_member)

lemma length_insort_by [simp]: "length (insort_by key x xs) = Suc (length xs)"
  by (induction xs) auto

lemma length_foldr_insort_by [simp]: "length (foldr (insort_by key) xs ys) = length xs + length ys"
  by (induction xs) auto

lemma sort_by_length: "sort_by key xs = Inr ys \<Longrightarrow> length ys = length xs"
  by (auto simp: sort_by_def split: list.splits if_splits)

lemma sort_by_error: "sort_by key xs = Inl e \<Longrightarrow> e = TypeError"
  by (auto simp: sort_by_def split: list.splits if_splits)

lemma complete_rows_length:
  "length (concat (map (\<lambda>((s, t), x). case (s, t) of
                                     (Some sv, Some tv) \<Rightarrow> [((sv, tv), x)]
                                   | _ \<Rightarrow> []) z)) \<le> length z"
proof (induction z)
  case Nil
  show ?case by simp
next
  case (Cons r z)
  obtain s t x where r: "r = ((s, t), x)" by (metis surj_pair)
  show ?case using Cons r by (cases s; cases t) simp_all
qed

lemma dropped_rows_length:
  assumes "length ss = length ts" "length ts = length ex"
    and "None \<in> set ss \<or> None \<in> set ts"
  shows "length (concat (map (\<lambda>((s, t), x). case (s, t) of
                                     (Some sv, Some tv) \<Rightarrow> [((sv, tv), x)]
                                   | _ \<Rightarrow> []) (zip (zip ss ts) ex))) < length ex"
  using assms
proof (induction ss ts ex rule: list_induct3)
  case Nil
  then show ?case by simp
next
  case (Cons s ss t ts x ex)
  have le: "length (concat (map (\<lambda>((s, t), x). case (s, t) of
                                     (Some sv, Some tv) \<Rightarrow> [((sv, tv), x)]
                                   | _ \<Rightarrow> []) (zip (zip ss ts) ex))) \<le> length ex"
    using complete_rows_length [of "zip (zip ss ts) ex"] Cons.hyps by simp
  show ?case
  proof (cases "s = None \<or> t = None")
    case True
    then show ?thesis using le by (cases s; cases t) simp_all
  next
    case False
    then have "None \<in> set ss \<or> None \<in> set ts" using Cons.prems by auto
    then show ?thesis using Cons.IH False by (cases s; cases t) simp_all
  qed
qed

lemma index_group_short:
  "distinct keys \<Longrightarrow> length (filter (\<lambda>(k', r). k' = Some k) (zip keys rows)) \<le> 1"
proof (induction keys arbitrary: rows)
  case Nil
  show ?case by simp
next
  case (Cons a keys)
  show ?case
  proof (cases rows)
    case Nil
    then show ?thesis by simp
  next
    case (Cons r rs)
    show ?thesis
    proof (cases "a = Some k")
      case True
      then have "Some k \<notin> set keys" using Cons.prems by simp
      then have "filter (\<lambda>(k', r). k' = Some k) (zip keys rs) = []"
        by (auto simp: filter_empty_conv dest: set_zip_leftD)
      then show ?thesis using Cons True by simp
    next
      case False
      then show ?thesis using Cons Cons.IH [of rs] Cons.prems by simp
    qed
  qed
qed

lemma walk_short: "length g \<le> 1 \<Longrightarrow> walk None g = []"
  by (cases g) auto


lemma groupby_index_short:
  assumes "distinct keys" "groupby keys rows = Inr groups" "g \<in> set groups"
  shows "length g \<le> 1"
proof -
  from assms(2,3) obtain k where
    "g = map snd (filter (\<lambda>(k', r). k' = Some k) (zip keys rows))"
    by (auto simp: groupby_def split: if_splits)
  then show ?thesis using index_group_short [OF assms(1), of k rows] by simp
qed

lemma grouped_index_walk:
  assumes "getitem df ''invoice_id'' = None" "distinct (index df)"
    and "grouped df sc tc = Inr groups"
  shows "concat (map (walk None) groups) = []"
proof -
  have "\<exists>rs :: ((val \<times> val) \<times> cell) list.
          groupby (index df) (map (\<lambda>r. fst (fst r)) rs) = Inr groups"
  proof (cases "df_sorted sc tc (index df)")
    case (Inl e)
    then show ?thesis using assms(1,3) by (simp add: grouped_def)
  next
    case (Inr rs)
    then have "groupby (index df) (map (\<lambda>r. fst (fst r)) rs) = Inr groups"
      using assms(1,3) by (simp add: grouped_def)
    then show ?thesis by (rule exI)
  qed
  then have "\<And>g. g \<in> set groups \<Longrightarrow> walk None g = []"
    using groupby_index_short [OF assms(2)] walk_short by blast
  then show ?thesis by (rule concat_map_Nil)
qed

text \<open>
  Claim C10, as the code has it. The grouping key is the column named
  \<open>invoice_id\<close>, and nothing else: in a table without a column of that name the rows
  are grouped by the labels of \<open>df.index\<close>. When those labels are pairwise different,
  as the default labels \<open>0 .. n - 1\<close> are, every workflow that \<open>detect_workflow\<close>
  returns has an empty list of transitions, whatever other identifier the table has.
  (The timestamp column is the argument \<open>timestamp_col\<close>, whose default is
  \<open>updated_at\<close>.)
\<close>

theorem no_invoice_id_no_transitions:
  assumes "''invoice_id'' \<notin> set (df_columns df)"
    and "distinct (index df)"
    and "detect_workflow df status_col_candidates timestamp_col = Inr (Some w)"
  shows "transitions w = []"
proof -
  have none: "getitem df ''invoice_id'' = None"
    using assms(1) by (rule getitem_absent)
  from assms(3) obtain sc sts where sc:
    "pick_status df (status_candidates df status_col_candidates) = Some sc"
    "sort_by (\<lambda>v. v) (unique (dropna (cvals sc))) = Inr sts"
    by (auto simp: detect_workflow_def split: option.splits sum.splits)
  show ?thesis
  proof (cases "timestamp_column df timestamp_col")
    case None
    then show ?thesis using assms(3) sc by (auto simp: detect_workflow_def)
  next
    case (Some tc)
    then obtain groups where g: "grouped df sc tc = Inr groups"
      "w = \<lparr>status_col = cname sc, states = sts,
            transitions = unique (concat (map (walk None) groups))\<rparr>"
      using assms(3) sc by (auto simp: detect_workflow_def split: sum.splits)
    have "transitions w = unique (concat (map (walk None) groups))"
      using g(2) by simp
    then show ?thesis
      by (simp only: grouped_index_walk [OF none assms(2) g(1)] unique_Nil)
  qed
qed

text \<open>
  The theorem at \<open>delivery_log\<close>: the two rows of parcel 3 go from open to closed,
  and no transition is reported.
\<close>

theorem no_invoice_id_no_transitions_witness:
  "''invoice_id'' \<notin> set (df_columns delivery_log) \<and> distinct (index delivery_log) \<and>
   detect_workflow delivery_log None ''updated_at'' =
     Inr (Some \<lparr>status_col = ''status'', states = [Str ''closed'', Str ''open''],
                transitions = []\<rparr>)"
proof -
  have a: "''invoice_id'' \<notin> set (df_columns delivery_log)" by code_simp
  have d: "distinct (index delivery_log)" by code_simp
  have b: "detect_workflow delivery_log None ''updated_at'' =
     Inr (Some \<lparr>status_col = ''status'', states = [Str ''closed'', Str ''open''],
                transitions = []\<rparr>)" by code_simp
  show ?thesis using no_invoice_id_no_transitions [OF a d b] a d b by simp
qed

text \<open>
  Claim C10 as stated (for every table without an \<open>invoice_id\<close> column) fails on a
  frame whose row labels repeat: \<open>labelled_log\<close> has no \<open>invoice_id\<close> column, its two
  rows carry the label 7, and the transition from open to closed is reported.
\<close>

theorem no_invoice_id_transition_counterexample:
  "wf_table labelled_log \<and> ''invoice_id'' \<notin> set (df_columns labelled_log) \<and>
   detect_workflow labelled_log None ''updated_at'' =
     Inr (Some \<lparr>status_col = ''status'', states = [Str ''closed'', Str ''open''],
                transitions = [(Str ''open'', Str ''closed'')]\<rparr>)"
  by code_simp

text \<open>
  Claim C7 says that \<open>detect_workflow\<close> returns for every table, also when rows are
  dropped and there is no \<open>invoice_id\<close> column. The code does the opposite: with a
  status column, a usable timestamp column, no \<open>invoice_id\<close> column and at least one
  row without status or timestamp, it always raises. The rows that remain are fewer
  than the labels of \<open>df.index\<close>, whatever these are, which \<open>groupby\<close> rejects
  with \<open>ValueError\<close> (unless sorting has already raised \<open>TypeError\<close>).
\<close>

theorem detect_workflow_dropped_rows:
  assumes wf: "wf_table df"
    and inv: "''invoice_id'' \<notin> set (df_columns df)"
    and sc: "pick_status df (status_candidates df status_col_candidates) = Some sc"
    and tc: "timestamp_column df timestamp_col = Some tc"
    and dropped: "None \<in> set (cvals sc) \<or> None \<in> set (cvals tc)"
  shows "detect_workflow df status_col_candidates timestamp_col = Inl TypeError \<or>
         detect_workflow df status_col_candidates timestamp_col = Inl ValueError"
proof (cases "sort_by (\<lambda>v. v) (unique (dropna (cvals sc)))")
  case (Inl e)
  then have "e = TypeError" by (rule sort_by_error)
  then show ?thesis using sc Inl by (simp add: detect_workflow_def)
next
  case (Inr sts)
  have none: "getitem df ''invoice_id'' = None" using inv by (rule getitem_absent)
  have len: "length (cvals sc) = length (cvals tc)" "length (cvals tc) = length (index df)"
    using wf pick_status_member [OF sc] timestamp_column_member [OF tc]
    by (simp_all add: wf_table_length wf_table_index)
  have g: "grouped df sc tc = Inl TypeError \<or> grouped df sc tc = Inl ValueError"
  proof (cases "df_sorted sc tc (index df)")
    case (Inl e)
    then have "e = TypeError" unfolding df_sorted_def by (rule sort_by_error)
    then show ?thesis using none Inl by (simp add: grouped_def)
  next
    case (Inr rs)
    then have "length rs < length (index df)"
      unfolding df_sorted_def
      using dropped_rows_length [OF len dropped] by (auto dest: sort_by_length)
    then have "groupby (index df) (map (\<lambda>r. fst (fst r)) rs) = Inl ValueError"
      by (simp add: groupby_def)
    then show ?thesis using none Inr by (simp add: grouped_def)
  qed
  then show ?thesis using sc tc Inr by (auto simp: detect_workflow_def)
qed

text \<open>
  At \<open>ticket_log\<close>, whose second row has no timestamp, the call with the default
  arguments raises \<open>ValueError\<close>.
\<close>

theorem detect_workflow_dropped_rows_witness:
  "wf_table ticket_log \<and> ''invoice_id'' \<notin> set (df_columns ticket_log) \<and>
   detect_workflow ticket_log None ''updated_at'' = Inl ValueError"
proof -
  let ?sc = "\<lparr>cname = ''status'', cdtype = Object,
               cvals = [Some (Str ''open''), Some (Str ''closed''), Some (Str ''open'')]\<rparr>"
  let ?tc = "\<lparr>cname = ''updated_at'', cdtype = Object,
               cvals = [Some (Str ''2024-01-01''), None, Some (Str ''2024-01-03'')]\<rparr>"
  have wf: "wf_table ticket_log" by code_simp
  have inv: "''invoice_id'' \<notin> set (df_columns ticket_log)" by code_simp
  have sc: "pick_status ticket_log (status_candidates ticket_log None) = Some ?sc" by code_simp
  have tc: "timestamp_column ticket_log ''updated_at'' = Some ?tc" by code_simp
  have dropped: "None \<in> set (cvals ?sc) \<or> None \<in> set (cvals ?tc)" by simp
  have r: "detect_workflow ticket_log None ''updated_at'' = Inl ValueError" by code_simp
  note detect_workflow_dropped_rows [OF wf inv sc tc dropped]
  then show ?thesis using wf inv r by simp
qed












section \<open>Derived fields\<close>

lemma pairs_member: "(a, b) \<in> set (pairs xs) \<Longrightarrow> a \<in> set xs \<and> b \<in> set xs"
  by (induction xs) auto

lemma pair_suggestion_member:
  assumes "s \<in> set (pair_suggestion pearson thr num a b)"
  shows "10 \<le> length (aligned num a b) \<and>
         (\<exists>c. pearson (aligned num a b) = Some c \<and> thr \<le> \<bar>c\<bar> \<and>
              s = \<lparr>field = cname num, derived_from = cname b @ '' - '' @ cname a,
                    corr = py_round c 2\<rparr>)"
proof (cases "pearson (aligned num a b)")
  case None
  then show ?thesis using assms by (simp add: pair_suggestion_def Let_def split: if_splits)
next
  case (Some c)
  then show ?thesis using assms by (simp add: pair_suggestion_def Let_def split: if_splits)
qed

lemma detect_derived_fields_member:
  assumes "s \<in> set (detect_derived_fields pearson df thr)"
  shows "\<exists>num a b. num \<in> set (cols df) \<and> a \<in> set (cols df) \<and> b \<in> set (cols df) \<and>
           s \<in> set (pair_suggestion pearson thr num a b)"
proof -
  define date_cols where
    "date_cols = filter (\<lambda>c. categorize_column (cname c) (cdtype c) = ''temporal'') (cols df)"
  from assms obtain num a b where m: "num \<in> set (cols df)" "(a, b) \<in> set (pairs date_cols)"
    "s \<in> set (pair_suggestion pearson thr num a b)"
    unfolding detect_derived_fields_def Let_def date_cols_def [symmetric]
    by (auto split: if_splits)
  have "a \<in> set (cols df) \<and> b \<in> set (cols df)"
    using pairs_member [OF m(2)] by (simp add: date_cols_def)
  then show ?thesis using m(1,3) by blast
qed

text \<open>
  Claim C8. For a numeric column and a pair of date columns, the loop body of
  \<open>detect_derived_fields\<close> emits nothing when the aligned sample has fewer than 10
  rows, whatever the correlation function returns, and nothing when the correlation is
  undefined; and every suggestion in the result comes from columns of the table whose
  aligned sample has at least 10 rows and a defined correlation of absolute value at
  least \<open>corr_threshold\<close>. An undefined correlation is a branch that emits nothing,
  not a failure.
\<close>

theorem derived_field_needs_sample:
  "(length (aligned num a b) < 10 \<longrightarrow> pair_suggestion pearson corr_threshold num a b = []) \<and>
   (pearson (aligned num a b) = None \<longrightarrow> pair_suggestion pearson corr_threshold num a b = []) \<and>
   (s \<in> set (detect_derived_fields pearson df corr_threshold) \<longrightarrow>
      (\<exists>n x y c. n \<in> set (cols df) \<and> x \<in> set (cols df) \<and> y \<in> set (cols df) \<and>
         field s = cname n \<and> derived_from s = cname y @ '' - '' @ cname x \<and>
         10 \<le> length (aligned n x y) \<and> pearson (aligned n x y) = Some c \<and>
         corr_threshold \<le> \<bar>c\<bar> \<and> corr s = py_round c 2))"
proof (intro conjI impI)
  assume "length (aligned num a b) < 10"
  then show "pair_suggestion pearson corr_threshold num a b = []"
    by (simp add: pair_suggestion_def)
next
  assume "pearson (aligned num a b) = None"
  then show "pair_suggestion pearson corr_threshold num a b = []"
    by (simp add: pair_suggestion_def Let_def)
next
  assume "s \<in> set (detect_derived_fields pearson df corr_threshold)"
  then obtain n x y where m: "n \<in> set (cols df)" "x \<in> set (cols df)" "y \<in> set (cols df)"
    "s \<in> set (pair_suggestion pearson corr_threshold n x y)"
    using detect_derived_fields_member by blast
  from pair_suggestion_member [OF m(4)] obtain c where
    "10 \<le> length (aligned n x y)" "pearson (aligned n x y) = Some c" "corr_threshold \<le> \<bar>c\<bar>"
    "s = \<lparr>field = cname n, derived_from = cname y @ '' - '' @ cname x, corr = py_round c 2\<rparr>"
    by blast
  then show "\<exists>n x y c. n \<in> set (cols df) \<and> x \<in> set (cols df) \<and> y \<in> set (cols df) \<and>
         field s = cname n \<and> derived_from s = cname y @ '' - '' @ cname x \<and>
         10 \<le> length (aligned n x y) \<and> pearson (aligned n x y) = Some c \<and>
         corr_threshold \<le> \<bar>c\<bar> \<and> corr s = py_round c 2"
    using m(1-3) by (intro exI [of _ n] exI [of _ x] exI [of _ y] exI [of _ c]) simp
qed

text \<open>
  Five shipments give no suggestion even under a correlation function that always
  answers 1; ten shipments give none when the correlation is undefined, and one when it
  is 1.
\<close>

theorem derived_field_needs_sample_witness:
  "detect_derived_fields (\<lambda>al. Some 1) (shipments 5) (19 / 20) = [] \<and>
   detect_derived_fields (\<lambda>al. None) (shipments 10) (19 / 20) = [] \<and>
   detect_derived_fields (\<lambda>al. Some 1) (shipments 10) (19 / 20) =
     [\<lparr>field = ''lead_days'', derived_from = ''due_date - created_at'', corr = 1\<rparr>]"
proof -
  let ?s = "\<lparr>field = ''lead_days'', derived_from = ''due_date - created_at'', corr = 1\<rparr>"
  have five: "length (aligned (cols (shipments 5) ! 0) (cols (shipments 5) ! 1)
                 (cols (shipments 5) ! 2)) < 10"
    by code_simp
  have nan: "(\<lambda>al. None :: rat option) (aligned (cols (shipments 10) ! 0)
                 (cols (shipments 10) ! 1) (cols (shipments 10) ! 2)) = None"
    by simp
  have r5: "detect_derived_fields (\<lambda>al. Some 1) (shipments 5) (19 / 20) = []" by code_simp
  have rn: "detect_derived_fields (\<lambda>al. None) (shipments 10) (19 / 20) = []" by code_simp
  have r10: "detect_derived_fields (\<lambda>al. Some 1) (shipments 10) (19 / 20) = [?s]" by code_simp
  then have mem: "?s \<in> set (detect_derived_fields (\<lambda>al. Some 1) (shipments 10) (19 / 20))"
    by simp
  note derived_field_needs_sample
    [of "cols (shipments 5) ! 0" "cols (shipments 5) ! 1" "cols (shipments 5) ! 2"
      "\<lambda>al. Some 1" "19 / 20" ?s "shipments 10"]
    derived_field_needs_sample
    [of "cols (shipments 10) ! 0" "cols (shipments 10) ! 1" "cols (shipments 10) ! 2"
      "\<lambda>al. None" "19 / 20" ?s "shipments 10"]
  then show ?thesis using five nan r5 rn r10 mem by simp
qed

end
